theory Spec2Isabelle
  imports Main "HOL-Library.Sublist" "HOL-Library.Word"
begin

section \<open>Go error values\<close>

text \<open>
  The two sources build errors with \<^verbatim>\<open>errors.New\<close> (a plain message) and with
  \<^verbatim>\<open>fmt.Errorf\<close> and one \<^verbatim>\<open>%w\<close> verb (a message together with the wrapped
  cause). Errors returned by the collaborators outside the two files are values of the
  same type. A Go \<^verbatim>\<open>error\<close> that may be nil is a \<open>goerror option\<close>, and a
  \<^verbatim>\<open>(T, error)\<close> pair of results is \<open>goerror + T\<close>.
\<close>

datatype goerror =
    ErrorString string
  | WrapError string goerror

text \<open>The method \<^verbatim>\<open>Error()\<close>: the message of an error value.\<close>

fun Error :: "goerror \<Rightarrow> string" where
  "Error (ErrorString s) = s"
| "Error (WrapError m e) = m"

text \<open>\<^verbatim>\<open>errors.New(s)\<close>.\<close>

definition errors_New :: "string \<Rightarrow> goerror" where
  "errors_New s = ErrorString s"

text \<open>
  \<^verbatim>\<open>fmt.Errorf(pre + "%w" + suf, err)\<close>: the message is the format with the cause's
  message in the place of the verb, and the cause is kept for \<^verbatim>\<open>Unwrap\<close>.
\<close>

definition fmt_Errorf :: "string \<Rightarrow> goerror \<Rightarrow> string \<Rightarrow> goerror" where
  "fmt_Errorf pre err suf = WrapError (pre @ Error err @ suf) err"

section \<open>The error aggregator \<^verbatim>\<open>VClusterAddError\<close>\<close>

text \<open>
  The struct has the single field \<^verbatim>\<open>errs []error\<close>; both methods have a pointer
  receiver, so \<^verbatim>\<open>addErr\<close> returns the updated struct.
\<close>

record VClusterAddError =
  errs :: "goerror list"

text \<open>The loop of \<^verbatim>\<open>CombinedError\<close>: each message followed by a pipe, written to the builder.\<close>

fun writeErrs :: "goerror list \<Rightarrow> string \<Rightarrow> string" where
  "writeErrs [] errMsg = errMsg"
| "writeErrs (err # rest) errMsg = writeErrs rest (errMsg @ (Error err @ ''|''))"

definition CombinedError :: "VClusterAddError \<Rightarrow> goerror option" where
  "CombinedError vce =
     (if length (errs vce) = 0 then None
      else if length (errs vce) = 1 then Some (errs vce ! 0)
      else Some (errors_New (writeErrs (errs vce) [])))"

definition addErr :: "VClusterAddError \<Rightarrow> string \<Rightarrow> goerror option \<Rightarrow> VClusterAddError" where
  "addErr vce vClusterName err =
     (case err of
        None \<Rightarrow> vce
      | Some e \<Rightarrow>
          vce\<lparr>errs := errs vce @ [fmt_Errorf (''cannot add vcluster '' @ vClusterName @ '': '') e '''']\<rparr>)"

text \<open>
  The words of the specification for the combined message: the messages joined with a
  pipe between neighbours.
\<close>

fun pipe_joined :: "string list \<Rightarrow> string" where
  "pipe_joined [] = ''''"
| "pipe_joined [m] = m"
| "pipe_joined (m # ms) = m @ ''|'' @ pipe_joined ms"

text \<open>What the builder holds: every message followed by a pipe.\<close>

definition pipe_terminated :: "string list \<Rightarrow> string" where
  "pipe_terminated ms = concat (map (\<lambda>m. m @ ''|'') ms)"

section \<open>The collaborators of the registration path\<close>

text \<open>
  Connections are opaque handles. An instance (\<^verbatim>\<open>find.VCluster\<close>) is reduced to the
  fields the source reads: its name, its namespace, what \<^verbatim>\<open>lifecycle.IsPaused\<close> reads
  off it, and what its \<^verbatim>\<open>ClientFactory.ClientConfig()\<close> returns.
\<close>

datatype restconfig = RestConfig nat
datatype kubeclient = Clientset nat

record VCluster =
  vc_Name :: string
  vc_Namespace :: string
  vc_Paused :: bool
  vc_ClientFactory :: "goerror + restconfig"

definition IsPaused :: "VCluster \<Rightarrow> bool" where
  "IsPaused vCluster = vc_Paused vCluster"

record AddVClusterOptions =
  Project :: string
  ImportName :: string
  Restart :: bool
  Insecure :: bool
  AccessKey :: string
  Host :: string
  CertificateAuthorityData :: "8 word list"
  All_flag :: bool

record GlobalFlags =
  gf_Context :: string
  gf_Namespace :: string
  gf_LoadedConfig :: nat

record QuestionOptions =
  Question :: string
  DefaultValue :: string
  Options :: "string list"

text \<open>
  Every call that leaves the process is an event of the trace, in the order of the
  calls; a logger call keeps its level, its format and its arguments.
\<close>

datatype loglevel = Debug | Info | Done | Warn

datatype logarg = ArgS string | ArgN nat | ArgE goerror

datatype event =
    EvLogf loglevel string "logarg list"
  | EvLog loglevel "logarg list"
  | EvClientConfig string
  | EvNewForConfig restconfig
  | EvListNamespaces kubeclient
  | EvListVClusters string string string
  | EvGetVCluster string string string
  | EvQuestion QuestionOptions
  | EvResumeHelm GlobalFlags string
  | EvApplyPlatformSecret nat kubeclient string string string string string bool "8 word list"
  | EvDeletePods kubeclient string string
  | EvIsLoftAlreadyInstalled kubeclient string
  | EvClientNew restconfig
  | EvBackupAll "string list"
  | EvWriteFile string "8 word list" nat

type_synonym trace = "event list"

text \<open>
  The answers of the collaborators. Each one is a function of the calls made so far and
  of the arguments of the call, so the same call may be answered differently later
  (a status query during the wake-up poll, a second instance in the same namespace).
  \<open>env_Timeout\<close> is the number of poll ticks that fit into \<^verbatim>\<open>clihelper.Timeout()\<close>
  at one tick per second.
\<close>

record Env =
  env_ClientConfig :: "trace \<Rightarrow> string \<Rightarrow> goerror + restconfig"
  env_NewForConfig :: "trace \<Rightarrow> restconfig \<Rightarrow> goerror + kubeclient"
  env_ListNamespaces :: "trace \<Rightarrow> kubeclient \<Rightarrow> goerror + string list"
  env_ListVClusters :: "trace \<Rightarrow> string \<Rightarrow> string \<Rightarrow> string \<Rightarrow> goerror + VCluster list"
  env_GetVCluster :: "trace \<Rightarrow> string \<Rightarrow> string \<Rightarrow> string \<Rightarrow> goerror + VCluster"
  env_Question :: "trace \<Rightarrow> QuestionOptions \<Rightarrow> goerror + string"
  env_ResumeHelm :: "trace \<Rightarrow> GlobalFlags \<Rightarrow> string \<Rightarrow> goerror option"
  env_Timeout :: nat
  env_ApplyPlatformSecret ::
    "trace \<Rightarrow> nat \<Rightarrow> kubeclient \<Rightarrow> string \<Rightarrow> string \<Rightarrow> string \<Rightarrow> string \<Rightarrow> string \<Rightarrow> bool
       \<Rightarrow> 8 word list \<Rightarrow> goerror option"
  env_DeletePods :: "trace \<Rightarrow> kubeclient \<Rightarrow> string \<Rightarrow> string \<Rightarrow> goerror option"

section \<open>\<^verbatim>\<open>addVClusterHelm\<close>: one target\<close>

text \<open>
  \<^verbatim>\<open>wait.PollUntilContextTimeout(ctx, time.Second, clihelper.Timeout(), false, cond)\<close>
  with the condition of the source: each tick asks for the instance again, stops with
  the error of the query, stops with success when the fresh instance is not paused, and
  otherwise waits for the next tick. When no tick is left the poll returns the
  context's deadline error. The condition assigns the fresh instance to the variable
  \<^verbatim>\<open>vCluster\<close> of the enclosing function, so a successful poll returns it.
\<close>

definition DeadlineExceeded :: goerror where
  "DeadlineExceeded = ErrorString ''context deadline exceeded''"

fun PollUntilContextTimeout ::
  "Env \<Rightarrow> GlobalFlags \<Rightarrow> string \<Rightarrow> nat \<Rightarrow> trace \<Rightarrow> (goerror + VCluster) \<times> trace" where
  "PollUntilContextTimeout env globalFlags vClusterName 0 tr = (Inl DeadlineExceeded, tr)"
| "PollUntilContextTimeout env globalFlags vClusterName (Suc ticks) tr =
     (let tr1 = tr @ [EvGetVCluster (gf_Context globalFlags) vClusterName (gf_Namespace globalFlags)]
      in case env_GetVCluster env tr (gf_Context globalFlags) vClusterName (gf_Namespace globalFlags) of
           Inl err \<Rightarrow> (Inl err, tr1)
         | Inr vCluster \<Rightarrow>
             if \<not> IsPaused vCluster then (Inr vCluster, tr1)
             else PollUntilContextTimeout env globalFlags vClusterName ticks tr1)"

definition snoozeConfirmation :: string where
  "snoozeConfirmation = ''No. Leave it sleeping. (It will be added automatically on next wakeup)''"

definition wakeQuestion :: "VCluster \<Rightarrow> QuestionOptions" where
  "wakeQuestion vCluster =
     \<lparr>Question = ''Would you like to wake vCluster '' @ vc_Name vCluster @ '' now to add immediately?'',
      DefaultValue = snoozeConfirmation,
      Options = [snoozeConfirmation, ''Yes. Wake and add now.'']\<rparr>"

text \<open>
  Lines 141 to 178 of \<^verbatim>\<open>addVClusterHelm\<close>: the pause check, the prompt, the resume
  command and the poll. The result is the error returned from there, or the values of
  \<^verbatim>\<open>snoozed\<close> and \<^verbatim>\<open>vCluster\<close> the rest of the function goes on with.
\<close>

definition wakeIfPaused ::
  "Env \<Rightarrow> GlobalFlags \<Rightarrow> string \<Rightarrow> VCluster \<Rightarrow> trace \<Rightarrow> (goerror + bool \<times> VCluster) \<times> trace" where
  "wakeIfPaused env globalFlags vClusterName vCluster tr =
     (if IsPaused vCluster then
        (let tr1 = tr @ [EvLogf Info
                     ''vCluster %s is currently sleeping. It will not be added to the platform until it wakes again.''
                     [ArgS (vc_Name vCluster)]];
             tr2 = tr1 @ [EvQuestion (wakeQuestion vCluster)]
         in case env_Question env tr1 (wakeQuestion vCluster) of
              Inl err \<Rightarrow> (Inl (fmt_Errorf ''failed to capture your response '' err []), tr2)
            | Inr answer \<Rightarrow>
                if answer = snoozeConfirmation then (Inr (True, vCluster), tr2)
                else
                  (let tr3 = tr2 @ [EvResumeHelm globalFlags vClusterName]
                   in case env_ResumeHelm env tr2 globalFlags vClusterName of
                        Some err \<Rightarrow>
                          (Inl (fmt_Errorf (''failed to wake up vCluster '' @ vClusterName @ '': '') err []), tr3)
                      | None \<Rightarrow>
                          (case PollUntilContextTimeout env globalFlags vClusterName (env_Timeout env) tr3 of
                             (Inl err, tr4) \<Rightarrow>
                               (Inl (fmt_Errorf ''error waiting for vCluster to wake up '' err []), tr4)
                           | (Inr vCluster', tr4) \<Rightarrow> (Inr (False, vCluster'), tr4))))
      else (Inr (False, vCluster), tr))"

text \<open>
  Lines 180 to 211: the platform secret, the restart and the closing log lines.
\<close>

definition applyCall :: "AddVClusterOptions \<Rightarrow> GlobalFlags \<Rightarrow> VCluster \<Rightarrow> kubeclient \<Rightarrow> event" where
  "applyCall options globalFlags vCluster kubeClient =
     EvApplyPlatformSecret (gf_LoadedConfig globalFlags) kubeClient (ImportName options)
       (vc_Namespace vCluster) (Project options) (AccessKey options) (Host options)
       (Insecure options) (CertificateAuthorityData options)"

definition deleteCall :: "VCluster \<Rightarrow> kubeclient \<Rightarrow> event" where
  "deleteCall vCluster kubeClient =
     EvDeletePods kubeClient (''app=vcluster,release='' @ vc_Name vCluster) (vc_Namespace vCluster)"

definition doneLines :: "bool \<Rightarrow> VCluster \<Rightarrow> event list" where
  "doneLines snoozed vCluster =
     (if snoozed then
        [EvLogf Info ''vCluster %s/%s will be added the next time it awakes''
           [ArgS (vc_Namespace vCluster), ArgS (vc_Name vCluster)],
         EvLogf Done
           (''Run '' @ [CHR 0x27] @ ''vcluster wakeup --help'' @ [CHR 0x27]
              @ '' to learn how to wake up vCluster %s/%s to complete the add operation.'')
           [ArgS (vc_Namespace vCluster), ArgS (vc_Name vCluster)]]
      else
        [EvLogf Done ''Successfully added vCluster %s/%s''
           [ArgS (vc_Namespace vCluster), ArgS (vc_Name vCluster)]])"

definition applyAndRestart ::
  "Env \<Rightarrow> AddVClusterOptions \<Rightarrow> GlobalFlags \<Rightarrow> bool \<Rightarrow> VCluster \<Rightarrow> kubeclient \<Rightarrow> trace
     \<Rightarrow> goerror option \<times> trace" where
  "applyAndRestart env options globalFlags snoozed vCluster kubeClient tr =
     (let tr1 = tr @ [applyCall options globalFlags vCluster kubeClient]
      in case env_ApplyPlatformSecret env tr (gf_LoadedConfig globalFlags) kubeClient
                (ImportName options) (vc_Namespace vCluster) (Project options) (AccessKey options)
                (Host options) (Insecure options) (CertificateAuthorityData options) of
           Some err \<Rightarrow> (Some err, tr1)
         | None \<Rightarrow>
             if Restart options then
               (let tr2 = tr1 @ [deleteCall vCluster kubeClient]
                in case env_DeletePods env tr1 kubeClient
                          (''app=vcluster,release='' @ vc_Name vCluster) (vc_Namespace vCluster) of
                     Some err \<Rightarrow> (Some (fmt_Errorf ''delete vcluster workloads: '' err []), tr2)
                   | None \<Rightarrow> (None, tr2 @ doneLines snoozed vCluster))
             else (None, tr1 @ doneLines snoozed vCluster))"

definition addVClusterHelm ::
  "Env \<Rightarrow> AddVClusterOptions \<Rightarrow> GlobalFlags \<Rightarrow> string \<Rightarrow> VCluster \<Rightarrow> kubeclient \<Rightarrow> trace
     \<Rightarrow> goerror option \<times> trace" where
  "addVClusterHelm env options globalFlags vClusterName vCluster kubeClient tr =
     (case wakeIfPaused env globalFlags vClusterName vCluster tr of
        (Inl err, tr1) \<Rightarrow> (Some err, tr1)
      | (Inr (snoozed, vCluster'), tr1) \<Rightarrow>
          applyAndRestart env options globalFlags snoozed vCluster' kubeClient tr1)"

section \<open>\<^verbatim>\<open>AddVClusterHelm\<close>: resolution and the batch loop\<close>

text \<open>The loop over the namespaces of the \<^verbatim>\<open>--all\<close> branch (lines 62 to 73).\<close>

fun scanNamespaces ::
  "Env \<Rightarrow> GlobalFlags \<Rightarrow> string list \<Rightarrow> VCluster list \<Rightarrow> trace \<Rightarrow> (goerror + VCluster list) \<times> trace" where
  "scanNamespaces env globalFlags [] vClusters tr = (Inr vClusters, tr)"
| "scanNamespaces env globalFlags (ns # rest) vClusters tr =
     (let tr1 = tr @ [EvLogf Info ''looking for a vcluster in %s namespace'' [ArgS ns]];
          tr2 = tr1 @ [EvListVClusters (gf_Context globalFlags) [] ns]
      in case env_ListVClusters env tr1 (gf_Context globalFlags) [] ns of
           Inl err \<Rightarrow> (Inl err, tr2)
         | Inr vClustersInNamespace \<Rightarrow>
             if length vClustersInNamespace = 0 then
               scanNamespaces env globalFlags rest vClusters
                 (tr2 @ [EvLogf Info ''no vClusters found in context %s and namespace %s''
                           [ArgS (gf_Context globalFlags), ArgS ns]])
             else scanNamespaces env globalFlags rest (vClusters @ vClustersInNamespace) tr2)"

text \<open>Lines 42 to 81: the targets of the invocation.\<close>

definition resolveVClusters ::
  "Env \<Rightarrow> AddVClusterOptions \<Rightarrow> GlobalFlags \<Rightarrow> string \<Rightarrow> trace \<Rightarrow> (goerror + VCluster list) \<times> trace" where
  "resolveVClusters env options globalFlags vClusterName tr =
     (if All_flag options then
        (let tr1 = tr @ [EvLogf Debug ''add vcluster called with --all flag'' []];
             tr2 = tr1 @ [EvClientConfig (gf_Context globalFlags)]
         in case env_ClientConfig env tr1 (gf_Context globalFlags) of
              Inl err \<Rightarrow> (Inl err, tr2)
            | Inr hostClusterRestConfig \<Rightarrow>
                (let tr3 = tr2 @ [EvNewForConfig hostClusterRestConfig]
                 in case env_NewForConfig env tr2 hostClusterRestConfig of
                      Inl err \<Rightarrow> (Inl err, tr3)
                    | Inr hostKubeClient \<Rightarrow>
                        (let tr4 = tr3 @ [EvListNamespaces hostKubeClient]
                         in case env_ListNamespaces env tr3 hostKubeClient of
                              Inl err \<Rightarrow> (Inl err, tr4)
                            | Inr namespaces \<Rightarrow>
                                scanNamespaces env globalFlags namespaces []
                                  (tr4 @ [EvLogf Debug ''looking for vclusters in %d namespaces''
                                            [ArgN (length namespaces)]]))))
      else
        (let tr1 = tr @ [EvGetVCluster (gf_Context globalFlags) vClusterName (gf_Namespace globalFlags)]
         in case env_GetVCluster env tr (gf_Context globalFlags) vClusterName (gf_Namespace globalFlags) of
              Inl err \<Rightarrow> (Inl err, tr1)
            | Inr vCluster \<Rightarrow> (Inr ([] @ [vCluster]), tr1)))"

text \<open>The loop of lines 99 to 103.\<close>

fun addLoop ::
  "Env \<Rightarrow> AddVClusterOptions \<Rightarrow> GlobalFlags \<Rightarrow> kubeclient \<Rightarrow> VCluster list \<Rightarrow> VClusterAddError \<Rightarrow> trace
     \<Rightarrow> VClusterAddError \<times> trace" where
  "addLoop env options globalFlags kubeClient [] addE tr = (addE, tr)"
| "addLoop env options globalFlags kubeClient (vCluster # rest) addE tr =
     (let tr1 = tr @ [EvLogf Info ''adding %s vCluster to platform'' [ArgS (vc_Name vCluster)]]
      in case addVClusterHelm env options globalFlags (vc_Name vCluster) vCluster kubeClient tr1 of
           (err, tr2) \<Rightarrow>
             addLoop env options globalFlags kubeClient rest (addErr addE (vc_Name vCluster) err) tr2)"

text \<open>Lines 83 to 105, after the targets are known.\<close>

definition addResolved ::
  "Env \<Rightarrow> AddVClusterOptions \<Rightarrow> GlobalFlags \<Rightarrow> VCluster list \<Rightarrow> trace \<Rightarrow> goerror option \<times> trace" where
  "addResolved env options globalFlags vClusters tr =
     (case vClusters of
        [] \<Rightarrow> (None, tr)
      | first # _ \<Rightarrow>
          (case vc_ClientFactory first of
             Inl err \<Rightarrow> (Some err, tr)
           | Inr restConfig \<Rightarrow>
               (let tr1 = tr @ [EvNewForConfig restConfig]
                in case env_NewForConfig env tr restConfig of
                     Inl err \<Rightarrow> (Some err, tr1)
                   | Inr kubeClient \<Rightarrow>
                       (case addLoop env options globalFlags kubeClient vClusters \<lparr>errs = []\<rparr>
                               (tr1 @ [EvLogf Debug ''trying to add %d vClusters to platform''
                                         [ArgN (length vClusters)]]) of
                          (addE, tr2) \<Rightarrow> (CombinedError addE, tr2)))))"

definition AddVClusterHelm ::
  "Env \<Rightarrow> AddVClusterOptions \<Rightarrow> GlobalFlags \<Rightarrow> string \<Rightarrow> trace \<Rightarrow> goerror option \<times> trace" where
  "AddVClusterHelm env options globalFlags vClusterName tr =
     (case resolveVClusters env options globalFlags vClusterName tr of
        (Inl err, tr1) \<Rightarrow> (Some err, tr1)
      | (Inr vClusters, tr1) \<Rightarrow> addResolved env options globalFlags vClusters tr1)"

text \<open>The events that belong to the work on one target.\<close>

fun target_event :: "event \<Rightarrow> bool" where
  "target_event (EvQuestion _) = True"
| "target_event (EvGetVCluster _ _ _) = True"
| "target_event (EvResumeHelm _ _) = True"
| "target_event (EvApplyPlatformSecret _ _ _ _ _ _ _ _ _) = True"
| "target_event (EvDeletePods _ _ _) = True"
| "target_event _ = False"

fun is_delete :: "event \<Rightarrow> bool" where
  "is_delete (EvDeletePods _ _ _) = True"
| "is_delete _ = False"

fun is_apply :: "event \<Rightarrow> bool" where
  "is_apply (EvApplyPlatformSecret _ _ _ _ _ _ _ _ _) = True"
| "is_apply _ = False"

fun is_connect :: "event \<Rightarrow> bool" where
  "is_connect (EvNewForConfig _) = True"
| "is_connect _ = False"

text \<open>The connection an apply or a delete event was made with.\<close>

fun event_client :: "event \<Rightarrow> kubeclient option" where
  "event_client (EvApplyPlatformSecret _ kc _ _ _ _ _ _ _) = Some kc"
| "event_client (EvDeletePods kc _ _) = Some kc"
| "event_client _ = None"

text \<open>The line the batch loop logs before it works on a target.\<close>

definition addingLine :: "VCluster \<Rightarrow> event" where
  "addingLine vCluster = EvLogf Info ''adding %s vCluster to platform'' [ArgS (vc_Name vCluster)]"

text \<open>The line logged when a paused target is met.\<close>

definition sleepingLine :: "VCluster \<Rightarrow> event" where
  "sleepingLine vCluster =
     EvLogf Info
       ''vCluster %s is currently sleeping. It will not be added to the platform until it wakes again.''
       [ArgS (vc_Name vCluster)]"

text \<open>The events of the pause check, the prompt, the resume command and the poll.\<close>

fun wake_event :: "event \<Rightarrow> bool" where
  "wake_event (EvLogf _ _ _) = True"
| "wake_event (EvQuestion _) = True"
| "wake_event (EvResumeHelm _ _) = True"
| "wake_event (EvGetVCluster _ _ _) = True"
| "wake_event _ = False"

text \<open>
  The answers to the two calls of lines 181 and 199 when they are made after the
  calls \<open>tr\<close>, with the arguments the source passes.
\<close>

definition applyResult ::
  "Env \<Rightarrow> AddVClusterOptions \<Rightarrow> GlobalFlags \<Rightarrow> VCluster \<Rightarrow> kubeclient \<Rightarrow> trace \<Rightarrow> goerror option" where
  "applyResult env options globalFlags vCluster kubeClient tr =
     env_ApplyPlatformSecret env tr (gf_LoadedConfig globalFlags) kubeClient (ImportName options)
       (vc_Namespace vCluster) (Project options) (AccessKey options) (Host options)
       (Insecure options) (CertificateAuthorityData options)"

definition deleteResult :: "Env \<Rightarrow> VCluster \<Rightarrow> kubeclient \<Rightarrow> trace \<Rightarrow> goerror option" where
  "deleteResult env vCluster kubeClient tr =
     env_DeletePods env tr kubeClient (''app=vcluster,release='' @ vc_Name vCluster) (vc_Namespace vCluster)"

text \<open>The answer the collaborator gave to an apply or delete call made after \<open>tr\<close>.\<close>

fun answer_to :: "Env \<Rightarrow> trace \<Rightarrow> event \<Rightarrow> goerror option" where
  "answer_to env tr (EvApplyPlatformSecret c k i n p a h s ca) =
     env_ApplyPlatformSecret env tr c k i n p a h s ca"
| "answer_to env tr (EvDeletePods k l n) = env_DeletePods env tr k l n"
| "answer_to env tr _ = None"

text \<open>
  An event that is no connection set-up and that, when it is an apply or a delete call,
  was made with the connection \<open>kc\<close>.
\<close>

definition own :: "kubeclient \<Rightarrow> event \<Rightarrow> bool" where
  "own kc e \<longleftrightarrow> (event_client e = None \<or> event_client e = Some kc) \<and> \<not> is_connect e"

text \<open>The line logged before the batch loop starts.\<close>

definition tryingLine :: "nat \<Rightarrow> event" where
  "tryingLine n = EvLogf Debug ''trying to add %d vClusters to platform'' [ArgN n]"

section \<open>The backup command\<close>

datatype ctrlclient = CtrlClient nat
datatype object = Object string "8 word list"

record BackupCmd =
  cmd_Namespace :: string
  cmd_Filename :: string
  cmd_Skip :: "string list"

text \<open>
  \<^verbatim>\<open>run\<close> calls each collaborator at most once, so each answer is a function of the
  arguments of the call. \<open>b_All\<close> is \<^verbatim>\<open>backup.All\<close>: the objects, the errors and the
  messages it hands to the progress callback. \<open>b_Replace\<close> and \<open>b_Quote\<close> are
  \<^verbatim>\<open>product.Replace\<close> and the rendering of the verb \<^verbatim>\<open>%q\<close>.
\<close>

record BackupEnv =
  b_ClientConfig :: "goerror + restconfig"
  b_NewForConfig :: "restconfig \<Rightarrow> goerror + kubeclient"
  b_IsLoftAlreadyInstalled :: "kubeclient \<Rightarrow> string \<Rightarrow> goerror + bool"
  b_Question :: "QuestionOptions \<Rightarrow> goerror + string"
  b_New :: "restconfig \<Rightarrow> goerror + ctrlclient"
  b_All :: "ctrlclient \<Rightarrow> string list \<Rightarrow> object list \<times> goerror list \<times> string list"
  b_ToYAML :: "object list \<Rightarrow> goerror + 8 word list"
  b_WriteFile :: "string \<Rightarrow> 8 word list \<Rightarrow> nat \<Rightarrow> goerror option"
  b_Replace :: "string \<Rightarrow> string"
  b_Quote :: "string \<Rightarrow> string"

text \<open>The file mode \<^verbatim>\<open>0644\<close>, an octal literal.\<close>

definition mode_0644 :: nat where
  "mode_0644 = 6 * 64 + 4 * 8 + 4"

definition kubeConfigError :: "goerror \<Rightarrow> goerror" where
  "kubeConfigError err =
     fmt_Errorf ''there is an error loading your current kube config ('' err
       (''), please make sure you have access to a kubernetes cluster and the command ''
          @ [CHR 0x60] @ ''kubectl get namespaces'' @ [CHR 0x60] @ '' is working'')"

text \<open>
  The text of the question: the format goes through \<^verbatim>\<open>product.Replace\<close>, then
  the verb \<^verbatim>\<open>%q\<close> is replaced by the quoted namespace.
\<close>

fun Sprintf_q :: "string \<Rightarrow> string \<Rightarrow> string" where
  "Sprintf_q [] q = []"
| "Sprintf_q [c] q = [c]"
| "Sprintf_q (c # d # cs) q =
     (if c = CHR ''%'' \<and> d = CHR ''q'' then q @ Sprintf_q cs q else c # Sprintf_q (d # cs) q)"

definition continueQuestion :: "BackupEnv \<Rightarrow> BackupCmd \<Rightarrow> QuestionOptions" where
  "continueQuestion env cmd =
     \<lparr>Question = Sprintf_q
        (b_Replace env ''Seems like vCluster platform was not installed into namespace %q, do you want to continue?'')
        (b_Quote env (cmd_Namespace cmd)),
      DefaultValue = ''Yes'',
      Options = [''Yes'', ''No'']\<rparr>"

text \<open>Lines 109 to 134: the controller client, the collection, the serialisation, the file.\<close>

definition collectAndWrite :: "BackupEnv \<Rightarrow> BackupCmd \<Rightarrow> restconfig \<Rightarrow> goerror option \<times> event list" where
  "collectAndWrite env cmd kubeConfig =
     (case b_New env kubeConfig of
        Inl err \<Rightarrow> (Some err, [EvClientNew kubeConfig])
      | Inr client \<Rightarrow>
          (case b_All env client (cmd_Skip cmd) of
             (objects, errors, msgs) \<Rightarrow>
               (let evs = [EvClientNew kubeConfig, EvBackupAll (cmd_Skip cmd)]
                          @ map (\<lambda>msg. EvLog Info [ArgS msg]) msgs
                          @ map (\<lambda>err. EvLog Warn [ArgE err]) errors
                in case b_ToYAML env objects of
                     Inl err \<Rightarrow> (Some err, evs)
                   | Inr backupBytes \<Rightarrow>
                       (let evs1 = evs @ [EvLogf Info ''Writing backup to %s...'' [ArgS (cmd_Filename cmd)],
                                          EvWriteFile (cmd_Filename cmd) backupBytes mode_0644]
                        in case b_WriteFile env (cmd_Filename cmd) backupBytes mode_0644 of
                             Some err \<Rightarrow> (Some err, evs1)
                           | None \<Rightarrow>
                               (None, evs1 @ [EvLogf Done ''Wrote backup to %s'' [ArgS (cmd_Filename cmd)]])))))"

text \<open>\<^verbatim>\<open>BackupCmd.run\<close>.\<close>

definition run :: "BackupEnv \<Rightarrow> BackupCmd \<Rightarrow> goerror option \<times> event list" where
  "run env cmd =
     (case b_ClientConfig env of
        Inl err \<Rightarrow> (Some (kubeConfigError err), [EvClientConfig []])
      | Inr kubeConfig \<Rightarrow>
          (case b_NewForConfig env kubeConfig of
             Inl err \<Rightarrow> (Some (kubeConfigError err), [EvClientConfig [], EvNewForConfig kubeConfig])
           | Inr kubeClient \<Rightarrow>
               (let evs = [EvClientConfig [], EvNewForConfig kubeConfig,
                           EvIsLoftAlreadyInstalled kubeClient (cmd_Namespace cmd)]
                in case b_IsLoftAlreadyInstalled env kubeClient (cmd_Namespace cmd) of
                     Inl err \<Rightarrow> (Some err, evs)
                   | Inr isInstalled \<Rightarrow>
                       if \<not> isInstalled then
                         (let evs1 = evs @ [EvQuestion (continueQuestion env cmd)]
                          in case b_Question env (continueQuestion env cmd) of
                               Inl err \<Rightarrow> (Some err, evs1)
                             | Inr answer \<Rightarrow>
                                 if answer \<noteq> ''Yes'' then (None, evs1)
                                 else (case collectAndWrite env cmd kubeConfig of
                                         (r, evs2) \<Rightarrow> (r, evs1 @ evs2)))
                       else (case collectAndWrite env cmd kubeConfig of
                               (r, evs2) \<Rightarrow> (r, evs @ evs2)))))"

text \<open>The warning lines and the file writes of a run.\<close>

fun is_warn :: "event \<Rightarrow> bool" where
  "is_warn (EvLog Warn _) = True"
| "is_warn (EvLogf Warn _ _) = True"
| "is_warn _ = False"

fun is_write :: "event \<Rightarrow> bool" where
  "is_write (EvWriteFile _ _ _) = True"
| "is_write _ = False"

fun is_collect :: "event \<Rightarrow> bool" where
  "is_collect (EvBackupAll _) = True"
| "is_collect (EvClientNew _) = True"
| "is_collect _ = False"

section \<open>Concrete instances, options and collaborators\<close>

definition ex_awake :: VCluster where
  "ex_awake = \<lparr>vc_Name = ''a'', vc_Namespace = ''ns-a'', vc_Paused = False,
                vc_ClientFactory = Inr (RestConfig 0)\<rparr>"

definition ex_asleep :: VCluster where
  "ex_asleep = \<lparr>vc_Name = ''s'', vc_Namespace = ''ns-s'', vc_Paused = True,
                 vc_ClientFactory = Inr (RestConfig 0)\<rparr>"

definition ex_forbidden :: VCluster where
  "ex_forbidden = \<lparr>vc_Name = ''f'', vc_Namespace = ''ns-f'', vc_Paused = False,
                    vc_ClientFactory = Inr (RestConfig 0)\<rparr>"

definition ex_broken :: VCluster where
  "ex_broken = \<lparr>vc_Name = ''b'', vc_Namespace = ''ns-b'', vc_Paused = False,
                 vc_ClientFactory = Inl (ErrorString ''no kube config'')\<rparr>"

definition ex_options :: "bool \<Rightarrow> bool \<Rightarrow> AddVClusterOptions" where
  "ex_options restart all =
     \<lparr>Project = ''p'', ImportName = ''i'', Restart = restart, Insecure = False, AccessKey = ''k'',
      Host = ''h'', CertificateAuthorityData = [], All_flag = all\<rparr>"

definition ex_flags :: GlobalFlags where
  "ex_flags = \<lparr>gf_Context = ''ctx'', gf_Namespace = ''ns'', gf_LoadedConfig = 0\<rparr>"

text \<open>
  Collaborators that answer the prompt with \<open>answer\<close>, the resume command with
  \<open>resume\<close>, every listing of a namespace with \<open>found\<close>, and every status query with a
  paused instance; the secret is refused in the namespace \<open>ns-f\<close> only.
\<close>

definition ex_env :: "string \<Rightarrow> goerror option \<Rightarrow> VCluster list \<Rightarrow> Env" where
  "ex_env answer resume found =
     \<lparr>env_ClientConfig = (\<lambda>_ _. Inr (RestConfig 1)),
      env_NewForConfig = (\<lambda>_ _. Inr (Clientset 7)),
      env_ListNamespaces = (\<lambda>_ _. Inr [''ns-a'']),
      env_ListVClusters = (\<lambda>_ _ _ _. Inr found),
      env_GetVCluster = (\<lambda>_ _ _ _. Inr ex_asleep),
      env_Question = (\<lambda>_ _. Inr answer),
      env_ResumeHelm = (\<lambda>_ _ _. resume),
      env_Timeout = 2,
      env_ApplyPlatformSecret =
        (\<lambda>_ _ _ _ ns _ _ _ _ _. if ns = ''ns-f'' then Some (ErrorString ''forbidden'') else None),
      env_DeletePods = (\<lambda>_ _ _ _. None)\<rparr>"

definition ex_cmd :: BackupCmd where
  "ex_cmd = \<lparr>cmd_Namespace = ''loft'', cmd_Filename = ''backup.yaml'', cmd_Skip = []\<rparr>"

text \<open>
  A backup environment where the platform is installed or not, the prompt is answered
  with \<open>answer\<close>, and the collector returns one object and the errors \<open>errors\<close>.
\<close>

definition ex_benv :: "bool \<Rightarrow> string \<Rightarrow> goerror list \<Rightarrow> BackupEnv" where
  "ex_benv installed answer errors =
     \<lparr>b_ClientConfig = Inr (RestConfig 1),
      b_NewForConfig = (\<lambda>_. Inr (Clientset 7)),
      b_IsLoftAlreadyInstalled = (\<lambda>_ _. Inr installed),
      b_Question = (\<lambda>_. Inr answer),
      b_New = (\<lambda>_. Inr (CtrlClient 3)),
      b_All = (\<lambda>_ _. ([Object ''User'' [1]], errors, [''users''])),
      b_ToYAML = (\<lambda>objects. Inr (concat (map (\<lambda>x. case x of Object _ payload \<Rightarrow> payload) objects))),
      b_WriteFile = (\<lambda>_ _ _. None),
      b_Replace = (\<lambda>s. s),
      b_Quote = (\<lambda>s. [CHR 0x22] @ s @ [CHR 0x22])\<rparr>"

section \<open>Properties\<close>

lemma writeErrs_acc: "writeErrs es acc = acc @ pipe_terminated (map Error es)"
  by (induction es arbitrary: acc) (simp_all add: pipe_terminated_def)

lemma pipe_joined_terminated: "ms \<noteq> [] \<Longrightarrow> pipe_joined ms @ ''|'' = pipe_terminated ms"
  by (induction ms rule: pipe_joined.induct) (simp_all add: pipe_terminated_def)

text \<open>
  Claim C3, as the code has it. \<^verbatim>\<open>CombinedError\<close> returns nil for no recorded error and the
  single stored error itself, not wrapped again, for exactly one. For two or more it
  returns one new error whose message is every stored message in recording order, each
  followed by a pipe: the pipe-joined text with one more pipe at its end.
\<close>

theorem CombinedError_cases:
  "CombinedError \<lparr>errs = []\<rparr> = None
   \<and> CombinedError \<lparr>errs = [e]\<rparr> = Some e
   \<and> (2 \<le> length es \<longrightarrow>
        CombinedError \<lparr>errs = es\<rparr> = Some (ErrorString (pipe_joined (map Error es) @ ''|'')))"
proof -
  have "2 \<le> length es \<Longrightarrow> pipe_joined (map Error es) @ ''|'' = writeErrs es []"
    using pipe_joined_terminated [of "map Error es"] by (cases es) (auto simp: writeErrs_acc)
  then show ?thesis
    by (auto simp: CombinedError_def errors_New_def)
qed

text \<open>
  Two recorded errors with the messages a and b combine to the message a|b|.
\<close>

theorem CombinedError_cases_witness:
  "2 \<le> length [ErrorString ''a'', ErrorString ''b'']
   \<and> CombinedError \<lparr>errs = [ErrorString ''a'', ErrorString ''b'']\<rparr> = Some (ErrorString ''a|b|'')"
  using CombinedError_cases [of _ "[ErrorString ''a'', ErrorString ''b'']"] by simp

text \<open>
  Claim C3 as stated fails: for the two stored messages a and b the pipe-joined text is
  a|b, and the message of the combined error is a different string.
\<close>

theorem CombinedError_not_pipe_joined:
  "map_option Error (CombinedError \<lparr>errs = [ErrorString ''a'', ErrorString ''b'']\<rparr>)
     \<noteq> Some (pipe_joined (map Error [ErrorString ''a'', ErrorString ''b'']))"
  by (simp add: CombinedError_def errors_New_def)

text \<open>
  Claim C4. \<^verbatim>\<open>addErr\<close> leaves the aggregator as it is for a nil error, and otherwise
  appends exactly one error that wraps the cause under the message
  cannot add vcluster, the target name, a colon and the cause's message. The sequence
  is empty exactly when \<^verbatim>\<open>CombinedError\<close> returns nil.
\<close>

theorem addErr_record:
  "addErr vce vClusterName None = vce
   \<and> addErr vce vClusterName (Some err) =
       vce\<lparr>errs := errs vce @ [WrapError (''cannot add vcluster '' @ vClusterName @ '': '' @ Error err) err]\<rparr>
   \<and> (CombinedError vce = None \<longleftrightarrow> errs vce = [])"
  by (simp add: addErr_def fmt_Errorf_def CombinedError_def)

text \<open>
  Recording nil changes nothing, recording the error boom for the target a stores the
  wrapped error, and the combined result is nil before and an error after.
\<close>

theorem addErr_record_witness:
  "addErr \<lparr>errs = []\<rparr> ''a'' None = \<lparr>errs = []\<rparr>
   \<and> addErr \<lparr>errs = []\<rparr> ''a'' (Some (ErrorString ''boom'')) =
       \<lparr>errs = [WrapError ''cannot add vcluster a: boom'' (ErrorString ''boom'')]\<rparr>
   \<and> CombinedError \<lparr>errs = []\<rparr> = None
   \<and> CombinedError (addErr \<lparr>errs = []\<rparr> ''a'' (Some (ErrorString ''boom''))) \<noteq> None"
  using addErr_record [of "\<lparr>errs = []\<rparr>" "''a''" "ErrorString ''boom''"]
        addErr_record [of "addErr \<lparr>errs = []\<rparr> ''a'' (Some (ErrorString ''boom''))" "''a''" "ErrorString ''boom''"]
  by simp

lemma wake_event_quiet:
  "wake_event e \<Longrightarrow> \<not> is_apply e \<and> \<not> is_delete e \<and> \<not> is_connect e \<and> event_client e = None"
  by (cases e) simp_all

lemma doneLines_wake: "e \<in> set (doneLines snoozed vc) \<Longrightarrow> wake_event e"
  by (auto simp: doneLines_def split: if_splits)

lemma poll_events:
  "\<exists>ys. snd (PollUntilContextTimeout env gf name ticks tr) = tr @ ys \<and> (\<forall>e\<in>set ys. wake_event e)"
proof (induction ticks arbitrary: tr)
  case 0
  show ?case by simp
next
  case (Suc ticks)
  let ?q = "EvGetVCluster (gf_Context gf) name (gf_Namespace gf)"
  from Suc.IH [of "tr @ [?q]"] obtain ys where
    ys: "snd (PollUntilContextTimeout env gf name ticks (tr @ [?q])) = (tr @ [?q]) @ ys"
        "\<forall>e\<in>set ys. wake_event e" by blast
  show ?case
  proof (cases "env_GetVCluster env tr (gf_Context gf) name (gf_Namespace gf)")
    case (Inl err)
    then have "snd (PollUntilContextTimeout env gf name (Suc ticks) tr) = tr @ [?q]" by simp
    then show ?thesis by fastforce
  next
    case (Inr v)
    show ?thesis
    proof (cases "IsPaused v")
      case True
      with Inr ys have "snd (PollUntilContextTimeout env gf name (Suc ticks) tr) = tr @ (?q # ys)"
        by simp
      moreover have "\<forall>e\<in>set (?q # ys). wake_event e" using ys by simp
      ultimately show ?thesis by blast
    next
      case False
      with Inr have "snd (PollUntilContextTimeout env gf name (Suc ticks) tr) = tr @ [?q]" by simp
      then show ?thesis by fastforce
    qed
  qed
qed

lemma wake_active:
  "\<not> IsPaused vc \<Longrightarrow> wakeIfPaused env gf name vc tr = (Inr (False, vc), tr)"
  by (simp add: wakeIfPaused_def)

lemma wake_prompt_failed:
  "IsPaused vc \<Longrightarrow> env_Question env (tr @ [sleepingLine vc]) (wakeQuestion vc) = Inl err \<Longrightarrow>
   wakeIfPaused env gf name vc tr =
     (Inl (WrapError (''failed to capture your response '' @ Error err) err),
      tr @ [sleepingLine vc, EvQuestion (wakeQuestion vc)])"
  by (simp add: wakeIfPaused_def sleepingLine_def fmt_Errorf_def)

lemma wake_snoozed:
  "IsPaused vc \<Longrightarrow>
   env_Question env (tr @ [sleepingLine vc]) (wakeQuestion vc) = Inr snoozeConfirmation \<Longrightarrow>
   wakeIfPaused env gf name vc tr =
     (Inr (True, vc), tr @ [sleepingLine vc, EvQuestion (wakeQuestion vc)])"
  by (simp add: wakeIfPaused_def sleepingLine_def)

lemma wake_resume_failed:
  "IsPaused vc \<Longrightarrow> env_Question env (tr @ [sleepingLine vc]) (wakeQuestion vc) = Inr answer \<Longrightarrow>
   answer \<noteq> snoozeConfirmation \<Longrightarrow>
   env_ResumeHelm env (tr @ [sleepingLine vc, EvQuestion (wakeQuestion vc)]) gf name = Some err \<Longrightarrow>
   wakeIfPaused env gf name vc tr =
     (Inl (WrapError (''failed to wake up vCluster '' @ name @ '': '' @ Error err) err),
      tr @ [sleepingLine vc, EvQuestion (wakeQuestion vc), EvResumeHelm gf name])"
  by (simp add: wakeIfPaused_def sleepingLine_def fmt_Errorf_def)

lemma wake_polled:
  "IsPaused vc \<Longrightarrow> env_Question env (tr @ [sleepingLine vc]) (wakeQuestion vc) = Inr answer \<Longrightarrow>
   answer \<noteq> snoozeConfirmation \<Longrightarrow>
   env_ResumeHelm env (tr @ [sleepingLine vc, EvQuestion (wakeQuestion vc)]) gf name = None \<Longrightarrow>
   PollUntilContextTimeout env gf name (env_Timeout env)
     (tr @ [sleepingLine vc, EvQuestion (wakeQuestion vc), EvResumeHelm gf name]) = (r, tr') \<Longrightarrow>
   wakeIfPaused env gf name vc tr =
     (case r of
        Inl err \<Rightarrow> Inl (WrapError (''error waiting for vCluster to wake up '' @ Error err) err)
      | Inr vc' \<Rightarrow> Inr (False, vc'),
      tr')"
  by (simp add: wakeIfPaused_def sleepingLine_def fmt_Errorf_def split: sum.splits)

lemma wakeIfPaused_events:
  "\<exists>ys. snd (wakeIfPaused env gf name vc tr) = tr @ ys \<and> (\<forall>e\<in>set ys. wake_event e)"
proof (cases "IsPaused vc")
  case False
  then show ?thesis by (simp add: wake_active)
next
  case paused: True
  let ?tr2 = "tr @ [sleepingLine vc, EvQuestion (wakeQuestion vc)]"
  let ?tr3 = "tr @ [sleepingLine vc, EvQuestion (wakeQuestion vc), EvResumeHelm gf name]"
  have w2: "\<forall>e\<in>set [sleepingLine vc, EvQuestion (wakeQuestion vc)]. wake_event e"
    by (simp add: sleepingLine_def)
  have w3: "\<forall>e\<in>set [sleepingLine vc, EvQuestion (wakeQuestion vc), EvResumeHelm gf name]. wake_event e"
    by (simp add: sleepingLine_def)
  show ?thesis
  proof (cases "env_Question env (tr @ [sleepingLine vc]) (wakeQuestion vc)")
    case (Inl err)
    from wake_prompt_failed [OF paused Inl] have "snd (wakeIfPaused env gf name vc tr) = ?tr2" by simp
    with w2 show ?thesis by blast
  next
    case (Inr answer)
    show ?thesis
    proof (cases "answer = snoozeConfirmation")
      case True
      with wake_snoozed [OF paused] Inr have "snd (wakeIfPaused env gf name vc tr) = ?tr2" by simp
      with w2 show ?thesis by blast
    next
      case wake: False
      show ?thesis
      proof (cases "env_ResumeHelm env ?tr2 gf name")
        case (Some err)
        from wake_resume_failed [OF paused Inr wake Some]
        have "snd (wakeIfPaused env gf name vc tr) = ?tr3" by simp
        with w3 show ?thesis by blast
      next
        case None
        obtain ps where ps: "snd (PollUntilContextTimeout env gf name (env_Timeout env) ?tr3) = ?tr3 @ ps"
            "\<forall>e\<in>set ps. wake_event e"
          using poll_events [of env gf name "env_Timeout env" ?tr3] by blast
        obtain r where r: "PollUntilContextTimeout env gf name (env_Timeout env) ?tr3 = (r, ?tr3 @ ps)"
          using ps(1) by (cases "PollUntilContextTimeout env gf name (env_Timeout env) ?tr3") simp
        from wake_polled [OF paused Inr wake None r]
        have "snd (wakeIfPaused env gf name vc tr)
                = tr @ ([sleepingLine vc, EvQuestion (wakeQuestion vc), EvResumeHelm gf name] @ ps)"
          by simp
        moreover have
          "\<forall>e\<in>set ([sleepingLine vc, EvQuestion (wakeQuestion vc), EvResumeHelm gf name] @ ps). wake_event e"
          using ps(2) w3 by simp
        ultimately show ?thesis by blast
      qed
    qed
  qed
qed

lemma answer_to_apply:
  "answer_to env tr (applyCall options gf vc kc) = applyResult env options gf vc kc tr"
  by (simp add: applyCall_def applyResult_def)

lemma answer_to_delete: "answer_to env tr (deleteCall vc kc) = deleteResult env vc kc tr"
  by (simp add: deleteCall_def deleteResult_def)

lemma is_apply_applyCall: "is_apply (applyCall options gf vc kc) \<and> \<not> is_delete (applyCall options gf vc kc)"
  by (simp add: applyCall_def)

lemma is_delete_deleteCall: "is_delete (deleteCall vc kc) \<and> \<not> is_apply (deleteCall vc kc)"
  by (simp add: deleteCall_def)

lemma apply_failed:
  "applyResult env options gf vc kc tr = Some err \<Longrightarrow>
   applyAndRestart env options gf snoozed vc kc tr = (Some err, tr @ [applyCall options gf vc kc])"
  by (simp add: applyAndRestart_def applyResult_def)

lemma apply_without_restart:
  "applyResult env options gf vc kc tr = None \<Longrightarrow> \<not> Restart options \<Longrightarrow>
   applyAndRestart env options gf snoozed vc kc tr =
     (None, tr @ applyCall options gf vc kc # doneLines snoozed vc)"
  by (simp add: applyAndRestart_def applyResult_def)

lemma restart_failed:
  "applyResult env options gf vc kc tr = None \<Longrightarrow> Restart options \<Longrightarrow>
   deleteResult env vc kc (tr @ [applyCall options gf vc kc]) = Some err \<Longrightarrow>
   applyAndRestart env options gf snoozed vc kc tr =
     (Some (WrapError (''delete vcluster workloads: '' @ Error err) err),
      tr @ [applyCall options gf vc kc, deleteCall vc kc])"
  by (simp add: applyAndRestart_def applyResult_def deleteResult_def deleteCall_def fmt_Errorf_def)

lemma restart_done:
  "applyResult env options gf vc kc tr = None \<Longrightarrow> Restart options \<Longrightarrow>
   deleteResult env vc kc (tr @ [applyCall options gf vc kc]) = None \<Longrightarrow>
   applyAndRestart env options gf snoozed vc kc tr =
     (None, tr @ applyCall options gf vc kc # deleteCall vc kc # doneLines snoozed vc)"
  by (simp add: applyAndRestart_def applyResult_def deleteResult_def deleteCall_def)

text \<open>The events after the apply call: nothing, the closing lines, or the delete call first.\<close>

lemma applyAndRestart_events:
  "\<exists>zs. snd (applyAndRestart env options gf snoozed vc kc tr) = tr @ applyCall options gf vc kc # zs
     \<and> (zs = [] \<or> zs = doneLines snoozed vc \<or> zs = [deleteCall vc kc]
          \<or> zs = deleteCall vc kc # doneLines snoozed vc)"
proof (cases "applyResult env options gf vc kc tr")
  case (Some err)
  then show ?thesis by (simp add: apply_failed)
next
  case None
  show ?thesis
  proof (cases "Restart options")
    case False
    with None show ?thesis by (simp add: apply_without_restart)
  next
    case True
    show ?thesis
    proof (cases "deleteResult env vc kc (tr @ [applyCall options gf vc kc])")
      case (Some err)
      with None True show ?thesis by (simp add: restart_failed)
    next
      case del: None
      with None True show ?thesis by (simp add: restart_done)
    qed
  qed
qed

lemma split_at_only:
  "xs @ d # zs = pre @ d' # post \<Longrightarrow> P d' \<Longrightarrow> \<forall>x\<in>set xs. \<not> P x \<Longrightarrow> \<forall>x\<in>set zs. \<not> P x \<Longrightarrow>
   pre = xs \<and> d' = d \<and> post = zs"
proof (induction xs arbitrary: pre)
  case Nil
  then show ?case by (cases pre) auto
next
  case (Cons x xs)
  then show ?case by (cases pre) auto
qed

lemma no_split:
  "xs = pre @ d' # post \<Longrightarrow> P d' \<Longrightarrow> \<forall>x\<in>set xs. \<not> P x \<Longrightarrow> False"
  by auto

lemma addVClusterHelm_wake_failed:
  "wakeIfPaused env gf name vc tr = (Inl err, tr1) \<Longrightarrow>
   addVClusterHelm env options gf name vc kc tr = (Some err, tr1)"
  by (simp add: addVClusterHelm_def)

lemma addVClusterHelm_woken:
  "wakeIfPaused env gf name vc tr = (Inr (snoozed, vc'), tr1) \<Longrightarrow>
   addVClusterHelm env options gf name vc kc tr = applyAndRestart env options gf snoozed vc' kc tr1"
  by (simp add: addVClusterHelm_def)

lemma delete_position:
  assumes quiet: "\<forall>e\<in>set w. \<not> is_apply e \<and> \<not> is_delete e"
      and a: "is_apply a" "\<not> is_delete a"
      and d: "is_delete d" "\<not> is_apply d"
      and zs: "\<forall>e\<in>set zs. \<not> is_apply e \<and> \<not> is_delete e"
      and applied: "answer_to env (tr @ w) a = None"
      and failed: "\<And>err. answer_to env (tr @ w @ [a]) d = Some err \<Longrightarrow> res = Some (wrap err) \<and> zs = []"
      and split: "w @ a # d # zs = pre @ d' # post" "is_delete d'"
  shows "(\<exists>pre' a'. pre = pre' @ [a'] \<and> is_apply a' \<and> answer_to env (tr @ pre') a' = None
            \<and> (\<forall>e\<in>set pre'. \<not> is_apply e \<and> \<not> is_delete e))
        \<and> (\<forall>e\<in>set post. \<not> is_apply e \<and> \<not> is_delete e)
        \<and> (\<forall>err. answer_to env (tr @ pre) d' = Some err \<longrightarrow> res = Some (wrap err) \<and> post = [])"
proof -
  have "(w @ [a]) @ d # zs = pre @ d' # post" using split(1) by simp
  moreover have "\<forall>x\<in>set (w @ [a]). \<not> is_delete x" using quiet a by simp
  moreover have "\<forall>x\<in>set zs. \<not> is_delete x" using zs by simp
  ultimately have eq: "pre = w @ [a] \<and> d' = d \<and> post = zs"
    using split_at_only [of "w @ [a]" d zs pre d' post is_delete] split(2) by blast
  have 1: "\<exists>pre' a'. pre = pre' @ [a'] \<and> is_apply a' \<and> answer_to env (tr @ pre') a' = None
            \<and> (\<forall>e\<in>set pre'. \<not> is_apply e \<and> \<not> is_delete e)"
    using eq a(1) applied quiet by blast
  have 2: "\<forall>e\<in>set post. \<not> is_apply e \<and> \<not> is_delete e" using eq zs by simp
  have 3: "\<forall>err. answer_to env (tr @ pre) d' = Some err \<longrightarrow> res = Some (wrap err) \<and> post = []"
    using eq failed by simp
  from 1 2 3 show ?thesis by blast
qed

text \<open>
  Claim C7. In the events of one target's operation, every pod deletion comes directly
  after the apply of the platform secret, that apply was answered with success, and no
  apply or delete call precedes or follows the pair. When the deletion is answered with
  an error, the operation returns that error wrapped under delete vcluster workloads
  and makes no further call: the applied secret is left as it is.
\<close>

theorem restart_follows_successful_apply:
  "\<exists>ys. snd (addVClusterHelm env options gf name vc kc tr) = tr @ ys \<and>
     (\<forall>pre d post. ys = pre @ d # post \<and> is_delete d \<longrightarrow>
        (\<exists>pre' a. pre = pre' @ [a] \<and> is_apply a \<and> answer_to env (tr @ pre') a = None
            \<and> (\<forall>e\<in>set pre'. \<not> is_apply e \<and> \<not> is_delete e))
        \<and> (\<forall>e\<in>set post. \<not> is_apply e \<and> \<not> is_delete e)
        \<and> (\<forall>err. answer_to env (tr @ pre) d = Some err \<longrightarrow>
              fst (addVClusterHelm env options gf name vc kc tr)
                = Some (WrapError (''delete vcluster workloads: '' @ Error err) err)
              \<and> post = []))"
proof -
  let ?run = "addVClusterHelm env options gf name vc kc tr"
  obtain w where w: "snd (wakeIfPaused env gf name vc tr) = tr @ w" "\<forall>e\<in>set w. wake_event e"
    using wakeIfPaused_events by blast
  have quiet: "\<forall>e\<in>set w. \<not> is_apply e \<and> \<not> is_delete e"
    using w(2) wake_event_quiet by blast
  obtain r where r: "wakeIfPaused env gf name vc tr = (r, tr @ w)"
    using w(1) by (cases "wakeIfPaused env gf name vc tr") simp
  show ?thesis
  proof (cases r)
    case (Inl err)
    with r have "?run = (Some err, tr @ w)" by (simp add: addVClusterHelm_wake_failed)
    then have "snd ?run = tr @ w" by simp
    moreover have "\<forall>pre d post. w = pre @ d # post \<and> is_delete d \<longrightarrow> False"
      using quiet by auto
    ultimately show ?thesis by blast
  next
    case (Inr p)
    obtain snoozed vc' where p: "p = (snoozed, vc')" by (cases p)
    let ?a = "applyCall options gf vc' kc"
    let ?d = "deleteCall vc' kc"
    have run: "?run = applyAndRestart env options gf snoozed vc' kc (tr @ w)"
      using r Inr p by (simp add: addVClusterHelm_woken)
    have done_quiet: "\<forall>e\<in>set (doneLines snoozed vc'). \<not> is_apply e \<and> \<not> is_delete e"
      using doneLines_wake wake_event_quiet by blast
    have wa_quiet: "\<forall>x\<in>set (w @ [?a]). \<not> is_delete x"
      using quiet is_apply_applyCall by simp
    show ?thesis
    proof (cases "applyResult env options gf vc' kc (tr @ w)")
      case (Some err)
      then have "snd ?run = tr @ (w @ [?a])" using run by (simp add: apply_failed)
      moreover have "\<forall>pre d post. w @ [?a] = pre @ d # post \<and> is_delete d \<longrightarrow> False"
        using wa_quiet by (metis in_set_conv_decomp)
      ultimately show ?thesis by blast
    next
      case applied: None
      show ?thesis
      proof (cases "Restart options")
        case False
        then have "snd ?run = tr @ (w @ ?a # doneLines snoozed vc')"
          using run applied by (simp add: apply_without_restart)
        moreover have "\<forall>x\<in>set (w @ ?a # doneLines snoozed vc'). \<not> is_delete x"
          using quiet is_apply_applyCall done_quiet by auto
        then have "\<forall>pre d post. w @ ?a # doneLines snoozed vc' = pre @ d # post \<and> is_delete d \<longrightarrow> False"
          by (metis in_set_conv_decomp)
        ultimately show ?thesis by blast
      next
        case restart: True
        show ?thesis
        proof (cases "deleteResult env vc' kc ((tr @ w) @ [?a])")
          case (Some err)
          then have res: "?run = (Some (WrapError (''delete vcluster workloads: '' @ Error err) err),
                                  tr @ (w @ [?a, ?d]))"
            using run applied restart restart_failed [of env options gf vc' kc "tr @ w" err snoozed]
            by simp
          have "\<forall>pre d post. w @ [?a, ?d] = pre @ d # post \<and> is_delete d \<longrightarrow>
               (\<exists>pre' a. pre = pre' @ [a] \<and> is_apply a \<and> answer_to env (tr @ pre') a = None
                  \<and> (\<forall>e\<in>set pre'. \<not> is_apply e \<and> \<not> is_delete e))
               \<and> (\<forall>e\<in>set post. \<not> is_apply e \<and> \<not> is_delete e)
               \<and> (\<forall>err'. answer_to env (tr @ pre) d = Some err' \<longrightarrow>
                     fst ?run = Some (WrapError (''delete vcluster workloads: '' @ Error err') err')
                     \<and> post = [])"
          proof (intro allI impI)
            fix pre d post
            assume h: "w @ [?a, ?d] = pre @ d # post \<and> is_delete d"
            have f: "\<And>e. answer_to env (tr @ w @ [?a]) ?d = Some e \<Longrightarrow>
                       fst ?run = Some (WrapError (''delete vcluster workloads: '' @ Error e) e)
                       \<and> ([]::event list) = []"
              using Some res by (simp add: answer_to_delete)
            show "(\<exists>pre' a. pre = pre' @ [a] \<and> is_apply a \<and> answer_to env (tr @ pre') a = None
                  \<and> (\<forall>e\<in>set pre'. \<not> is_apply e \<and> \<not> is_delete e))
               \<and> (\<forall>e\<in>set post. \<not> is_apply e \<and> \<not> is_delete e)
               \<and> (\<forall>err'. answer_to env (tr @ pre) d = Some err' \<longrightarrow>
                     fst ?run = Some (WrapError (''delete vcluster workloads: '' @ Error err') err')
                     \<and> post = [])"
              by (rule delete_position [where w = w and a = ?a and d = ?d and zs = "[]"
                     and wrap = "\<lambda>e. WrapError (''delete vcluster workloads: '' @ Error e) e"])
                 (use quiet is_apply_applyCall is_delete_deleteCall applied f h in
                   \<open>simp_all add: answer_to_apply\<close>)
          qed
          moreover have "snd ?run = tr @ (w @ [?a, ?d])" using res by simp
          ultimately show ?thesis by blast
        next
          case deleted: None
          then have res: "?run = (None, tr @ (w @ ?a # ?d # doneLines snoozed vc'))"
            using run applied restart restart_done [of env options gf vc' kc "tr @ w" snoozed]
            by simp
          have "\<forall>pre d post. w @ ?a # ?d # doneLines snoozed vc' = pre @ d # post \<and> is_delete d \<longrightarrow>
               (\<exists>pre' a. pre = pre' @ [a] \<and> is_apply a \<and> answer_to env (tr @ pre') a = None
                  \<and> (\<forall>e\<in>set pre'. \<not> is_apply e \<and> \<not> is_delete e))
               \<and> (\<forall>e\<in>set post. \<not> is_apply e \<and> \<not> is_delete e)
               \<and> (\<forall>err'. answer_to env (tr @ pre) d = Some err' \<longrightarrow>
                     fst ?run = Some (WrapError (''delete vcluster workloads: '' @ Error err') err')
                     \<and> post = [])"
          proof (intro allI impI)
            fix pre d post
            assume h: "w @ ?a # ?d # doneLines snoozed vc' = pre @ d # post \<and> is_delete d"
            have f: "\<And>e. answer_to env (tr @ w @ [?a]) ?d = Some e \<Longrightarrow>
                       fst ?run = Some (WrapError (''delete vcluster workloads: '' @ Error e) e)
                       \<and> doneLines snoozed vc' = []"
              using deleted by (simp add: answer_to_delete)
            show "(\<exists>pre' a. pre = pre' @ [a] \<and> is_apply a \<and> answer_to env (tr @ pre') a = None
                  \<and> (\<forall>e\<in>set pre'. \<not> is_apply e \<and> \<not> is_delete e))
               \<and> (\<forall>e\<in>set post. \<not> is_apply e \<and> \<not> is_delete e)
               \<and> (\<forall>err'. answer_to env (tr @ pre) d = Some err' \<longrightarrow>
                     fst ?run = Some (WrapError (''delete vcluster workloads: '' @ Error err') err')
                     \<and> post = [])"
              by (rule delete_position [where w = w and a = ?a and d = ?d and zs = "doneLines snoozed vc'"
                     and wrap = "\<lambda>e. WrapError (''delete vcluster workloads: '' @ Error e) e"])
                 (use quiet is_apply_applyCall is_delete_deleteCall applied f h done_quiet in
                   \<open>simp_all add: answer_to_apply\<close>)
          qed
          moreover have "snd ?run = tr @ (w @ ?a # ?d # doneLines snoozed vc')" using res by simp
          ultimately show ?thesis by blast
        qed
      qed
    qed
  qed
qed

lemma applyCall_client:
  "event_client (applyCall options gf vc kc) = Some kc \<and> \<not> is_connect (applyCall options gf vc kc)"
  by (simp add: applyCall_def)

lemma deleteCall_client: "event_client (deleteCall vc kc) = Some kc \<and> \<not> is_connect (deleteCall vc kc)"
  by (simp add: deleteCall_def)

lemma own_wake: "wake_event e \<Longrightarrow> own kc e"
  using wake_event_quiet by (simp add: own_def)

lemma addVClusterHelm_events:
  "\<exists>ys. snd (addVClusterHelm env options gf name vc kc tr) = tr @ ys
     \<and> (\<not> IsPaused vc \<longrightarrow> applyCall options gf vc kc \<in> set ys)
     \<and> (\<forall>e\<in>set ys. own kc e)"
proof -
  let ?run = "addVClusterHelm env options gf name vc kc tr"
  obtain w where w: "snd (wakeIfPaused env gf name vc tr) = tr @ w" "\<forall>e\<in>set w. wake_event e"
    using wakeIfPaused_events by blast
  obtain r where r: "wakeIfPaused env gf name vc tr = (r, tr @ w)"
    using w(1) by (cases "wakeIfPaused env gf name vc tr") simp
  have ww: "\<forall>e\<in>set w. own kc e" using w(2) own_wake by blast
  show ?thesis
  proof (cases r)
    case (Inl err)
    with r have run: "?run = (Some err, tr @ w)" by (simp add: addVClusterHelm_wake_failed)
    have "IsPaused vc" using r Inl wake_active [of vc env gf name tr] by auto
    with run ww show ?thesis by auto
  next
    case (Inr p)
    obtain snoozed vc' where p: "p = (snoozed, vc')" by (cases p)
    have run: "?run = applyAndRestart env options gf snoozed vc' kc (tr @ w)"
      using r Inr p by (simp add: addVClusterHelm_woken)
    obtain zs where zs: "snd ?run = (tr @ w) @ applyCall options gf vc' kc # zs"
       "zs = [] \<or> zs = doneLines snoozed vc' \<or> zs = [deleteCall vc' kc]
          \<or> zs = deleteCall vc' kc # doneLines snoozed vc'"
      using applyAndRestart_events [of env options gf snoozed vc' kc "tr @ w"] run by auto
    have dl: "\<forall>e\<in>set (doneLines snoozed vc'). own kc e" using doneLines_wake own_wake by blast
    have "own kc (deleteCall vc' kc)" using deleteCall_client by (simp add: own_def)
    with zs(2) dl have z: "\<forall>e\<in>set zs. own kc e" by auto
    have a: "own kc (applyCall options gf vc' kc)" using applyCall_client by (simp add: own_def)
    have same: "\<not> IsPaused vc \<longrightarrow> vc' = vc"
      using r Inr p wake_active [of vc env gf name tr] by auto
    have "snd ?run = tr @ (w @ applyCall options gf vc' kc # zs)" using zs(1) by simp
    moreover have "\<forall>e\<in>set (w @ applyCall options gf vc' kc # zs). own kc e" using ww a z by auto
    moreover have "\<not> IsPaused vc \<longrightarrow> applyCall options gf vc kc \<in> set (w @ applyCall options gf vc' kc # zs)"
      using same by auto
    ultimately show ?thesis by blast
  qed
qed

lemma addLoop_events:
  "\<exists>ys. snd (addLoop env options gf kc vcs addE tr) = tr @ ys
     \<and> (\<forall>v\<in>set vcs. addingLine v \<in> set ys \<and> (\<not> IsPaused v \<longrightarrow> applyCall options gf v kc \<in> set ys))
     \<and> (\<forall>e\<in>set ys. own kc e)"
proof (induction vcs arbitrary: addE tr)
  case Nil
  show ?case by simp
next
  case (Cons vc rest)
  let ?tr1 = "tr @ [addingLine vc]"
  obtain ys1 where ys1: "snd (addVClusterHelm env options gf (vc_Name vc) vc kc ?tr1) = ?tr1 @ ys1"
      "\<not> IsPaused vc \<longrightarrow> applyCall options gf vc kc \<in> set ys1" "\<forall>e\<in>set ys1. own kc e"
    using addVClusterHelm_events [of env options gf "vc_Name vc" vc kc ?tr1] by blast
  obtain err where run: "addVClusterHelm env options gf (vc_Name vc) vc kc ?tr1 = (err, ?tr1 @ ys1)"
    using ys1(1) by (cases "addVClusterHelm env options gf (vc_Name vc) vc kc ?tr1") simp
  let ?addE = "addErr addE (vc_Name vc) err"
  obtain ys2 where ys2: "snd (addLoop env options gf kc rest ?addE (?tr1 @ ys1)) = (?tr1 @ ys1) @ ys2"
      "\<forall>v\<in>set rest. addingLine v \<in> set ys2 \<and> (\<not> IsPaused v \<longrightarrow> applyCall options gf v kc \<in> set ys2)"
      "\<forall>e\<in>set ys2. own kc e"
    using Cons.IH [of ?addE "?tr1 @ ys1"] by blast
  have step: "addLoop env options gf kc (vc # rest) addE tr = addLoop env options gf kc rest ?addE (?tr1 @ ys1)"
    using run by (simp add: addingLine_def)
  have "own kc (addingLine vc)" by (simp add: own_def addingLine_def)
  then have "\<forall>e\<in>set (addingLine vc # ys1 @ ys2). own kc e" using ys1(3) ys2(3) by auto
  moreover have "snd (addLoop env options gf kc (vc # rest) addE tr) = tr @ (addingLine vc # ys1 @ ys2)"
    using step ys2(1) by simp
  moreover have "\<forall>v\<in>set (vc # rest). addingLine v \<in> set (addingLine vc # ys1 @ ys2)
       \<and> (\<not> IsPaused v \<longrightarrow> applyCall options gf v kc \<in> set (addingLine vc # ys1 @ ys2))"
    using ys1(2) ys2(2) by auto
  ultimately show ?case by blast
qed

lemma poll_times_out:
  "\<forall>t. \<exists>v. env_GetVCluster env t (gf_Context gf) name (gf_Namespace gf) = Inr v \<and> IsPaused v \<Longrightarrow>
   fst (PollUntilContextTimeout env gf name ticks tr) = Inl DeadlineExceeded"
proof (induction ticks arbitrary: tr)
  case 0
  show ?case by simp
next
  case (Suc ticks)
  from Suc.prems obtain v where "env_GetVCluster env tr (gf_Context gf) name (gf_Namespace gf) = Inr v"
      "IsPaused v" by blast
  then show ?case using Suc.IH [OF Suc.prems] by simp
qed

text \<open>
  Claim C1, as the code has it. For a paused target whose prompt is answered with
  leave sleeping, the events are the sleeping line, the prompt and the apply of the
  platform secret, with no second apply after it. A pod deletion follows exactly when
  the restart flag is set and the apply succeeded; the function does not look at
  \<^verbatim>\<open>snoozed\<close> before it restarts.
\<close>

theorem left_sleeping_still_applies:
  assumes "IsPaused vc"
      and "env_Question env (tr @ [sleepingLine vc]) (wakeQuestion vc) = Inr snoozeConfirmation"
  shows "\<exists>zs. snd (addVClusterHelm env options gf name vc kc tr)
                 = tr @ [sleepingLine vc, EvQuestion (wakeQuestion vc), applyCall options gf vc kc] @ zs
           \<and> (\<forall>e\<in>set zs. \<not> is_apply e)
           \<and> ((\<exists>e\<in>set zs. is_delete e) \<longleftrightarrow>
                Restart options
                \<and> applyResult env options gf vc kc (tr @ [sleepingLine vc, EvQuestion (wakeQuestion vc)]) = None)"
proof -
  let ?tr2 = "tr @ [sleepingLine vc, EvQuestion (wakeQuestion vc)]"
  let ?a = "applyCall options gf vc kc"
  have run: "addVClusterHelm env options gf name vc kc tr = applyAndRestart env options gf True vc kc ?tr2"
    using wake_snoozed [OF assms] by (simp add: addVClusterHelm_woken)
  have dl: "\<forall>e\<in>set (doneLines True vc). \<not> is_apply e \<and> \<not> is_delete e"
    using doneLines_wake wake_event_quiet by blast
  show ?thesis
  proof (cases "applyResult env options gf vc kc ?tr2")
    case (Some err)
    then show ?thesis using run by (simp add: apply_failed)
  next
    case applied: None
    show ?thesis
    proof (cases "Restart options")
      case False
      then show ?thesis using run applied dl by (simp add: apply_without_restart)
    next
      case True
      show ?thesis
      proof (cases "deleteResult env vc kc (?tr2 @ [?a])")
        case (Some err)
        then show ?thesis using run applied True is_delete_deleteCall
          by (simp add: restart_failed)
      next
        case None
        then show ?thesis using run applied True is_delete_deleteCall dl
          by (simp add: restart_done)
      qed
    qed
  qed
qed

lemmas ex_defs = ex_env_def ex_options_def ex_flags_def ex_awake_def ex_asleep_def ex_forbidden_def
  ex_broken_def

text \<open>
  A paused target left sleeping, restart flag unset: the secret is applied and no pod
  is deleted.
\<close>

theorem left_sleeping_still_applies_witness:
  "IsPaused ex_asleep
   \<and> env_Question (ex_env snoozeConfirmation None []) ([] @ [sleepingLine ex_asleep])
        (wakeQuestion ex_asleep) = Inr snoozeConfirmation
   \<and> (\<exists>zs. snd (addVClusterHelm (ex_env snoozeConfirmation None []) (ex_options False False) ex_flags
                  ''s'' ex_asleep (Clientset 7) [])
              = [] @ [sleepingLine ex_asleep, EvQuestion (wakeQuestion ex_asleep),
                      applyCall (ex_options False False) ex_flags ex_asleep (Clientset 7)] @ zs
          \<and> \<not> (\<exists>e\<in>set zs. is_delete e))"
proof -
  have p: "IsPaused ex_asleep" by (simp add: IsPaused_def ex_asleep_def)
  have q: "env_Question (ex_env snoozeConfirmation None []) ([] @ [sleepingLine ex_asleep])
             (wakeQuestion ex_asleep) = Inr snoozeConfirmation"
    by (simp add: ex_env_def)
  have r: "\<not> Restart (ex_options False False)" by (simp add: ex_options_def)
  from left_sleeping_still_applies [OF p q, of "ex_options False False" ex_flags "''s''" "Clientset 7"] r
  show ?thesis using p q by blast
qed

text \<open>
  Claim C1 as stated fails: for a paused target left sleeping and the restart flag set,
  the pods of the target are deleted after the apply.
\<close>

theorem left_sleeping_restart_deletes_pods:
  "IsPaused ex_asleep
   \<and> env_Question (ex_env snoozeConfirmation None []) [sleepingLine ex_asleep]
        (wakeQuestion ex_asleep) = Inr snoozeConfirmation
   \<and> Restart (ex_options True False)
   \<and> snd (addVClusterHelm (ex_env snoozeConfirmation None []) (ex_options True False) ex_flags
            ''s'' ex_asleep (Clientset 7) [])
       = [sleepingLine ex_asleep, EvQuestion (wakeQuestion ex_asleep),
          applyCall (ex_options True False) ex_flags ex_asleep (Clientset 7),
          EvDeletePods (Clientset 7) ''app=vcluster,release=s'' ''ns-s'']
         @ doneLines True ex_asleep"
  by (simp add: addVClusterHelm_def wakeIfPaused_def applyAndRestart_def IsPaused_def
        sleepingLine_def applyCall_def deleteCall_def ex_defs)

text \<open>
  An active target with the restart flag set and a refused pod deletion: the events are
  the apply and the delete call, and the result wraps the refusal.
\<close>

theorem restart_follows_successful_apply_witness:
  "\<exists>ys. snd (addVClusterHelm
              ((ex_env [] None [])\<lparr>env_DeletePods := (\<lambda>_ _ _ _. Some (ErrorString ''denied''))\<rparr>)
              (ex_options True False) ex_flags ''a'' ex_awake (Clientset 7) []) = ys
     \<and> ys = [applyCall (ex_options True False) ex_flags ex_awake (Clientset 7)]
            @ deleteCall ex_awake (Clientset 7) # []
     \<and> is_delete (deleteCall ex_awake (Clientset 7))
     \<and> fst (addVClusterHelm
              ((ex_env [] None [])\<lparr>env_DeletePods := (\<lambda>_ _ _ _. Some (ErrorString ''denied''))\<rparr>)
              (ex_options True False) ex_flags ''a'' ex_awake (Clientset 7) [])
         = Some (WrapError ''delete vcluster workloads: denied'' (ErrorString ''denied''))"
proof -
  let ?env = "(ex_env [] None [])\<lparr>env_DeletePods := (\<lambda>_ _ _ _. Some (ErrorString ''denied''))\<rparr>"
  let ?a = "applyCall (ex_options True False) ex_flags ex_awake (Clientset 7)"
  let ?d = "deleteCall ex_awake (Clientset 7)"
  let ?run = "addVClusterHelm ?env (ex_options True False) ex_flags ''a'' ex_awake (Clientset 7) []"
  have tr: "snd ?run = [?a] @ ?d # []"
    by (simp add: addVClusterHelm_def wakeIfPaused_def applyAndRestart_def IsPaused_def
          applyCall_def deleteCall_def ex_defs)
  have d: "is_delete ?d" by (simp add: deleteCall_def)
  have ans: "answer_to ?env ([] @ [?a]) ?d = Some (ErrorString ''denied'')"
    by (simp add: deleteCall_def ex_env_def)
  from restart_follows_successful_apply
         [of ?env "ex_options True False" ex_flags "''a''" ex_awake "Clientset 7" "[]"]
  obtain ys where ys: "snd ?run = [] @ ys"
     "\<forall>pre d post. ys = pre @ d # post \<and> is_delete d \<longrightarrow>
        (\<forall>err. answer_to ?env ([] @ pre) d = Some err \<longrightarrow>
              fst ?run = Some (WrapError (''delete vcluster workloads: '' @ Error err) err)
              \<and> post = [])"
    by blast
  from ys(1) tr have "ys = [?a] @ ?d # []" by simp
  with ys(2) d ans have "fst ?run = Some (WrapError (''delete vcluster workloads: ''
        @ Error (ErrorString ''denied'')) (ErrorString ''denied''))" by blast
  then show ?thesis using tr d by simp
qed

lemma AddVClusterHelm_resolved:
  "resolveVClusters env options gf name tr0 = (Inr vcs, tr) \<Longrightarrow>
   AddVClusterHelm env options gf name tr0 = addResolved env options gf vcs tr"
  by (simp add: AddVClusterHelm_def)

lemma addResolved_connected:
  "vc_ClientFactory first = Inr rc \<Longrightarrow> env_NewForConfig env tr rc = Inr kc \<Longrightarrow>
   addResolved env options gf (first # rest) tr =
     (CombinedError (fst (addLoop env options gf kc (first # rest) \<lparr>errs = []\<rparr>
                            (tr @ [EvNewForConfig rc, tryingLine (length (first # rest))]))),
      snd (addLoop env options gf kc (first # rest) \<lparr>errs = []\<rparr>
             (tr @ [EvNewForConfig rc, tryingLine (length (first # rest))])))"
  by (simp add: addResolved_def tryingLine_def split: prod.splits)

lemma addLoop_step:
  "addVClusterHelm env options gf (vc_Name vc) vc kc (tr @ [addingLine vc]) = (err, tr1) \<Longrightarrow>
   addLoop env options gf kc (vc # rest) addE tr =
     addLoop env options gf kc rest (addErr addE (vc_Name vc) err) tr1"
  by (simp add: addingLine_def)

text \<open>
  Claim C6. For a paused target whose prompt is answered with wake now, a failed resume
  command returns an error with the message failed to wake up vCluster, the name and
  the cause, and makes no further call; a failed poll returns an error with the message
  error waiting for vCluster to wake up and the cause, which is the deadline error when
  every tick of the timeout still finds the instance paused. The two errors are never
  equal. In the batch loop the targets after this one are still started, and the active
  ones have their secret applied, whatever this target returned.
\<close>

theorem wake_failures_distinct_and_local:
  assumes "IsPaused vc"
      and "env_Question env (tr @ [sleepingLine vc]) (wakeQuestion vc) = Inr answer"
      and "answer \<noteq> snoozeConfirmation"
  shows "(\<forall>err. env_ResumeHelm env (tr @ [sleepingLine vc, EvQuestion (wakeQuestion vc)]) gf name = Some err \<longrightarrow>
            addVClusterHelm env options gf name vc kc tr =
              (Some (WrapError (''failed to wake up vCluster '' @ name @ '': '' @ Error err) err),
               tr @ [sleepingLine vc, EvQuestion (wakeQuestion vc), EvResumeHelm gf name]))
       \<and> (env_ResumeHelm env (tr @ [sleepingLine vc, EvQuestion (wakeQuestion vc)]) gf name = None \<longrightarrow>
            (\<forall>err tr'. PollUntilContextTimeout env gf name (env_Timeout env)
                         (tr @ [sleepingLine vc, EvQuestion (wakeQuestion vc), EvResumeHelm gf name])
                         = (Inl err, tr') \<longrightarrow>
               addVClusterHelm env options gf name vc kc tr =
                 (Some (WrapError (''error waiting for vCluster to wake up '' @ Error err) err), tr')))
       \<and> (env_ResumeHelm env (tr @ [sleepingLine vc, EvQuestion (wakeQuestion vc)]) gf name = None
            \<and> (\<forall>t. \<exists>v. env_GetVCluster env t (gf_Context gf) name (gf_Namespace gf) = Inr v \<and> IsPaused v) \<longrightarrow>
            fst (addVClusterHelm env options gf name vc kc tr) =
              Some (WrapError ''error waiting for vCluster to wake up context deadline exceeded''
                      DeadlineExceeded))
       \<and> (\<forall>e1 e2. WrapError (''failed to wake up vCluster '' @ name @ '': '' @ Error e1) e1
                    \<noteq> WrapError (''error waiting for vCluster to wake up '' @ Error e2) e2)
       \<and> (\<forall>rest addE t. \<exists>ys. snd (addLoop env options gf kc (vc # rest) addE t) = t @ ys
             \<and> (\<forall>v\<in>set rest. addingLine v \<in> set ys
                    \<and> (\<not> IsPaused v \<longrightarrow> applyCall options gf v kc \<in> set ys)))"
proof -
  let ?tr2 = "tr @ [sleepingLine vc, EvQuestion (wakeQuestion vc)]"
  let ?tr3 = "tr @ [sleepingLine vc, EvQuestion (wakeQuestion vc), EvResumeHelm gf name]"
  let ?run = "addVClusterHelm env options gf name vc kc tr"
  have 1: "\<forall>err. env_ResumeHelm env ?tr2 gf name = Some err \<longrightarrow>
            ?run = (Some (WrapError (''failed to wake up vCluster '' @ name @ '': '' @ Error err) err), ?tr3)"
    using wake_resume_failed [OF assms] by (simp add: addVClusterHelm_wake_failed)
  have 2: "env_ResumeHelm env ?tr2 gf name = None \<longrightarrow>
            (\<forall>err tr'. PollUntilContextTimeout env gf name (env_Timeout env) ?tr3 = (Inl err, tr') \<longrightarrow>
               ?run = (Some (WrapError (''error waiting for vCluster to wake up '' @ Error err) err), tr'))"
  proof (intro impI allI)
    fix err tr'
    assume r: "env_ResumeHelm env ?tr2 gf name = None"
       and p: "PollUntilContextTimeout env gf name (env_Timeout env) ?tr3 = (Inl err, tr')"
    from wake_polled [OF assms r p]
    show "?run = (Some (WrapError (''error waiting for vCluster to wake up '' @ Error err) err), tr')"
      by (simp add: addVClusterHelm_wake_failed)
  qed
  have 3: "env_ResumeHelm env ?tr2 gf name = None
            \<and> (\<forall>t. \<exists>v. env_GetVCluster env t (gf_Context gf) name (gf_Namespace gf) = Inr v \<and> IsPaused v) \<longrightarrow>
            fst ?run = Some (WrapError ''error waiting for vCluster to wake up context deadline exceeded''
                      DeadlineExceeded)"
  proof
    assume h: "env_ResumeHelm env ?tr2 gf name = None
            \<and> (\<forall>t. \<exists>v. env_GetVCluster env t (gf_Context gf) name (gf_Namespace gf) = Inr v \<and> IsPaused v)"
    then have "fst (PollUntilContextTimeout env gf name (env_Timeout env) ?tr3) = Inl DeadlineExceeded"
      using poll_times_out by blast
    then obtain tr' where "PollUntilContextTimeout env gf name (env_Timeout env) ?tr3 = (Inl DeadlineExceeded, tr')"
      by (cases "PollUntilContextTimeout env gf name (env_Timeout env) ?tr3") simp
    with 2 h have "?run = (Some (WrapError (''error waiting for vCluster to wake up '' @ Error DeadlineExceeded)
                      DeadlineExceeded), tr')" by simp
    then show "fst ?run = Some (WrapError ''error waiting for vCluster to wake up context deadline exceeded''
                      DeadlineExceeded)" by (simp add: DeadlineExceeded_def)
  qed
  have 4: "\<forall>e1 e2. WrapError (''failed to wake up vCluster '' @ name @ '': '' @ Error e1) e1
                    \<noteq> WrapError (''error waiting for vCluster to wake up '' @ Error e2) e2"
    by simp
  have 5: "\<forall>rest addE t. \<exists>ys. snd (addLoop env options gf kc (vc # rest) addE t) = t @ ys
             \<and> (\<forall>v\<in>set rest. addingLine v \<in> set ys
                    \<and> (\<not> IsPaused v \<longrightarrow> applyCall options gf v kc \<in> set ys))"
  proof (intro allI)
    fix rest addE t
    from addLoop_events [of env options gf kc "vc # rest" addE t]
    show "\<exists>ys. snd (addLoop env options gf kc (vc # rest) addE t) = t @ ys
             \<and> (\<forall>v\<in>set rest. addingLine v \<in> set ys
                    \<and> (\<not> IsPaused v \<longrightarrow> applyCall options gf v kc \<in> set ys))"
      by auto
  qed
  from 1 2 3 4 5 show ?thesis by (intro conjI)
qed

theorem wake_failures_distinct_and_local_witness:
  "IsPaused ex_asleep
   \<and> ''Yes. Wake and add now.'' \<noteq> snoozeConfirmation
   \<and> fst (addVClusterHelm (ex_env ''Yes. Wake and add now.'' (Some (ErrorString ''helm failed'')) [])
            (ex_options False True) ex_flags ''s'' ex_asleep (Clientset 7) [])
       = Some (WrapError ''failed to wake up vCluster s: helm failed'' (ErrorString ''helm failed''))
   \<and> fst (addVClusterHelm (ex_env ''Yes. Wake and add now.'' None [])
            (ex_options False True) ex_flags ''s'' ex_asleep (Clientset 7) [])
       = Some (WrapError ''error waiting for vCluster to wake up context deadline exceeded''
                 DeadlineExceeded)"
proof -
  have p: "IsPaused ex_asleep" by (simp add: IsPaused_def ex_asleep_def)
  have n: "''Yes. Wake and add now.'' \<noteq> snoozeConfirmation" by (simp add: snoozeConfirmation_def)
  have q1: "env_Question (ex_env ''Yes. Wake and add now.'' (Some (ErrorString ''helm failed'')) [])
              ([] @ [sleepingLine ex_asleep]) (wakeQuestion ex_asleep) = Inr ''Yes. Wake and add now.''"
    by (simp add: ex_env_def)
  have q2: "env_Question (ex_env ''Yes. Wake and add now.'' None [])
              ([] @ [sleepingLine ex_asleep]) (wakeQuestion ex_asleep) = Inr ''Yes. Wake and add now.''"
    by (simp add: ex_env_def)
  have r1: "env_ResumeHelm (ex_env ''Yes. Wake and add now.'' (Some (ErrorString ''helm failed'')) [])
              ([] @ [sleepingLine ex_asleep, EvQuestion (wakeQuestion ex_asleep)]) ex_flags ''s''
            = Some (ErrorString ''helm failed'')"
    by (simp add: ex_env_def)
  have r2: "env_ResumeHelm (ex_env ''Yes. Wake and add now.'' None [])
              ([] @ [sleepingLine ex_asleep, EvQuestion (wakeQuestion ex_asleep)]) ex_flags ''s'' = None"
    by (simp add: ex_env_def)
  have g: "\<forall>t. \<exists>v. env_GetVCluster (ex_env ''Yes. Wake and add now.'' None []) t
                      (gf_Context ex_flags) ''s'' (gf_Namespace ex_flags) = Inr v \<and> IsPaused v"
    using p by (simp add: ex_env_def)
  from wake_failures_distinct_and_local [OF p q1 n, of ex_flags "''s''" "ex_options False True" "Clientset 7"] r1
  have a: "fst (addVClusterHelm (ex_env ''Yes. Wake and add now.'' (Some (ErrorString ''helm failed'')) [])
            (ex_options False True) ex_flags ''s'' ex_asleep (Clientset 7) [])
       = Some (WrapError ''failed to wake up vCluster s: helm failed'' (ErrorString ''helm failed''))"
    by simp
  from wake_failures_distinct_and_local [OF p q2 n, of ex_flags "''s''" "ex_options False True" "Clientset 7"] r2 g
  have b: "fst (addVClusterHelm (ex_env ''Yes. Wake and add now.'' None [])
            (ex_options False True) ex_flags ''s'' ex_asleep (Clientset 7) [])
       = Some (WrapError ''error waiting for vCluster to wake up context deadline exceeded''
                 DeadlineExceeded)"
    by simp
  from p n a b show ?thesis by simp
qed

lemma scanNamespaces_events:
  "\<exists>ys. snd (scanNamespaces env gf nss acc tr) = tr @ ys \<and> (\<forall>e\<in>set ys. \<not> target_event e)"
proof (induction nss arbitrary: acc tr)
  case Nil
  show ?case by simp
next
  case (Cons ns rest)
  let ?l = "EvLogf Info ''looking for a vcluster in %s namespace'' [ArgS ns]"
  let ?q = "EvListVClusters (gf_Context gf) [] ns"
  let ?n = "EvLogf Info ''no vClusters found in context %s and namespace %s'' [ArgS (gf_Context gf), ArgS ns]"
  show ?case
  proof (cases "env_ListVClusters env (tr @ [?l]) (gf_Context gf) [] ns")
    case (Inl err)
    then have "snd (scanNamespaces env gf (ns # rest) acc tr) = tr @ [?l, ?q]" by simp
    moreover have "\<forall>e\<in>set [?l, ?q]. \<not> target_event e" by simp
    ultimately show ?thesis by blast
  next
    case (Inr found)
    show ?thesis
    proof (cases "found = []")
      case True
      obtain ys where ys: "snd (scanNamespaces env gf rest acc (tr @ [?l, ?q, ?n])) = (tr @ [?l, ?q, ?n]) @ ys"
          "\<forall>e\<in>set ys. \<not> target_event e"
        using Cons.IH [of acc "tr @ [?l, ?q, ?n]"] by blast
      have "snd (scanNamespaces env gf (ns # rest) acc tr) = tr @ ([?l, ?q, ?n] @ ys)"
        using Inr True ys(1) by simp
      moreover have "\<forall>e\<in>set ([?l, ?q, ?n] @ ys). \<not> target_event e" using ys(2) by simp
      ultimately show ?thesis by blast
    next
      case False
      obtain ys where ys: "snd (scanNamespaces env gf rest (acc @ found) (tr @ [?l, ?q])) = (tr @ [?l, ?q]) @ ys"
          "\<forall>e\<in>set ys. \<not> target_event e"
        using Cons.IH [of "acc @ found" "tr @ [?l, ?q]"] by blast
      have "snd (scanNamespaces env gf (ns # rest) acc tr) = tr @ ([?l, ?q] @ ys)"
        using Inr False ys(1) by simp
      moreover have "\<forall>e\<in>set ([?l, ?q] @ ys). \<not> target_event e" using ys(2) by simp
      ultimately show ?thesis by blast
    qed
  qed
qed

lemma resolve_all_events:
  assumes "All_flag options"
  shows "\<exists>ys. snd (resolveVClusters env options gf name tr) = tr @ ys \<and> (\<forall>e\<in>set ys. \<not> target_event e)"
proof -
  let ?d = "EvLogf Debug ''add vcluster called with --all flag'' []"
  let ?c = "EvClientConfig (gf_Context gf)"
  show ?thesis
  proof (cases "env_ClientConfig env (tr @ [?d]) (gf_Context gf)")
    case (Inl err)
    then have "snd (resolveVClusters env options gf name tr) = tr @ [?d, ?c]"
      using assms by (simp add: resolveVClusters_def)
    moreover have "\<forall>e\<in>set [?d, ?c]. \<not> target_event e" by simp
    ultimately show ?thesis by blast
  next
    case cfg: (Inr rc)
    let ?n = "EvNewForConfig rc"
    show ?thesis
    proof (cases "env_NewForConfig env (tr @ [?d, ?c]) rc")
      case (Inl err)
      then have "snd (resolveVClusters env options gf name tr) = tr @ [?d, ?c, ?n]"
        using assms cfg by (simp add: resolveVClusters_def)
      moreover have "\<forall>e\<in>set [?d, ?c, ?n]. \<not> target_event e" by simp
      ultimately show ?thesis by blast
    next
      case cl: (Inr hk)
      let ?l = "EvListNamespaces hk"
      show ?thesis
      proof (cases "env_ListNamespaces env (tr @ [?d, ?c, ?n]) hk")
        case (Inl err)
        then have "snd (resolveVClusters env options gf name tr) = tr @ [?d, ?c, ?n, ?l]"
          using assms cfg cl by (simp add: resolveVClusters_def)
        moreover have "\<forall>e\<in>set [?d, ?c, ?n, ?l]. \<not> target_event e" by simp
        ultimately show ?thesis by blast
      next
        case (Inr nss)
        let ?k = "EvLogf Debug ''looking for vclusters in %d namespaces'' [ArgN (length nss)]"
        obtain ys where ys:
          "snd (scanNamespaces env gf nss [] (tr @ [?d, ?c, ?n, ?l, ?k])) = (tr @ [?d, ?c, ?n, ?l, ?k]) @ ys"
          "\<forall>e\<in>set ys. \<not> target_event e"
          using scanNamespaces_events [of env gf nss "[]" "tr @ [?d, ?c, ?n, ?l, ?k]"] by blast
        have "snd (resolveVClusters env options gf name tr) = tr @ ([?d, ?c, ?n, ?l, ?k] @ ys)"
          using assms cfg cl Inr ys(1) by (simp add: resolveVClusters_def)
        moreover have "\<forall>e\<in>set ([?d, ?c, ?n, ?l, ?k] @ ys). \<not> target_event e" using ys(2) by simp
        ultimately show ?thesis by blast
      qed
    qed
  qed
qed

lemma resolve_single_nonempty:
  "\<not> All_flag options \<Longrightarrow> fst (resolveVClusters env options gf name tr) \<noteq> Inr []"
  by (simp add: resolveVClusters_def Let_def split: sum.splits)

text \<open>
  Claim C5. When the resolution returns no target, \<^verbatim>\<open>AddVClusterHelm\<close> returns nil, and
  it makes no call beyond those of the resolution itself: no status query of a target,
  no prompt, no resume command, no apply of a secret and no pod deletion.
\<close>

theorem no_targets_is_silent_success:
  assumes "fst (resolveVClusters env options gf name tr) = Inr []"
  shows "fst (AddVClusterHelm env options gf name tr) = None
       \<and> snd (AddVClusterHelm env options gf name tr) = snd (resolveVClusters env options gf name tr)
       \<and> (\<exists>ys. snd (AddVClusterHelm env options gf name tr) = tr @ ys \<and> (\<forall>e\<in>set ys. \<not> target_event e))"
proof -
  have all: "All_flag options" using assms resolve_single_nonempty by blast
  obtain tr1 where r: "resolveVClusters env options gf name tr = (Inr [], tr1)"
    using assms by (cases "resolveVClusters env options gf name tr") simp
  then have run: "AddVClusterHelm env options gf name tr = (None, tr1)"
    by (simp add: AddVClusterHelm_def addResolved_def)
  from resolve_all_events [OF all, of env gf name tr] r run show ?thesis by simp
qed

theorem no_targets_is_silent_success_witness:
  "fst (resolveVClusters (ex_env [] None []) (ex_options True True) ex_flags [] []) = Inr []
   \<and> fst (AddVClusterHelm (ex_env [] None []) (ex_options True True) ex_flags [] []) = None
   \<and> filter target_event
        (snd (AddVClusterHelm (ex_env [] None []) (ex_options True True) ex_flags [] [])) = []"
proof -
  have h: "fst (resolveVClusters (ex_env [] None []) (ex_options True True) ex_flags [] []) = Inr []"
    by (simp add: resolveVClusters_def Let_def ex_env_def ex_options_def ex_flags_def)
  from no_targets_is_silent_success [OF h] h show ?thesis by (auto simp: filter_empty_conv)
qed

text \<open>
  Claim C9. The batch builds one connection, from the client factory of the first
  resolved target. When that factory fails, or the client cannot be built from its
  configuration, \<^verbatim>\<open>AddVClusterHelm\<close> returns that error and does nothing for any target,
  whatever the factories of the other targets would return. Otherwise no further
  connection is built, every apply and every pod deletion of the batch is made with
  that one connection, and every active target has its secret applied with it.
\<close>

theorem one_connection_for_the_batch:
  assumes "resolveVClusters env options gf name tr0 = (Inr (first # rest), tr)"
  shows "(\<forall>err. vc_ClientFactory first = Inl err \<longrightarrow>
            AddVClusterHelm env options gf name tr0 = (Some err, tr))
       \<and> (\<forall>rc err. vc_ClientFactory first = Inr rc \<and> env_NewForConfig env tr rc = Inl err \<longrightarrow>
            AddVClusterHelm env options gf name tr0 = (Some err, tr @ [EvNewForConfig rc]))
       \<and> (\<forall>rc kc. vc_ClientFactory first = Inr rc \<and> env_NewForConfig env tr rc = Inr kc \<longrightarrow>
            (\<exists>ys. snd (AddVClusterHelm env options gf name tr0) = tr @ EvNewForConfig rc # ys
               \<and> (\<forall>e\<in>set ys. own kc e)
               \<and> (\<forall>v\<in>set (first # rest). \<not> IsPaused v \<longrightarrow> applyCall options gf v kc \<in> set ys)))"
proof -
  have run: "AddVClusterHelm env options gf name tr0 = addResolved env options gf (first # rest) tr"
    using assms by (rule AddVClusterHelm_resolved)
  have 1: "\<forall>err. vc_ClientFactory first = Inl err \<longrightarrow>
            addResolved env options gf (first # rest) tr = (Some err, tr)"
    by (simp add: addResolved_def)
  have 2: "\<forall>rc err. vc_ClientFactory first = Inr rc \<and> env_NewForConfig env tr rc = Inl err \<longrightarrow>
            addResolved env options gf (first # rest) tr = (Some err, tr @ [EvNewForConfig rc])"
    by (simp add: addResolved_def)
  have 3: "\<forall>rc kc. vc_ClientFactory first = Inr rc \<and> env_NewForConfig env tr rc = Inr kc \<longrightarrow>
            (\<exists>ys. snd (addResolved env options gf (first # rest) tr) = tr @ EvNewForConfig rc # ys
               \<and> (\<forall>e\<in>set ys. own kc e)
               \<and> (\<forall>v\<in>set (first # rest). \<not> IsPaused v \<longrightarrow> applyCall options gf v kc \<in> set ys))"
  proof (intro allI impI)
    fix rc kc
    assume h: "vc_ClientFactory first = Inr rc \<and> env_NewForConfig env tr rc = Inr kc"
    let ?t = "tryingLine (length (first # rest))"
    let ?tr1 = "tr @ [EvNewForConfig rc, ?t]"
    obtain ys where ys: "snd (addLoop env options gf kc (first # rest) \<lparr>errs = []\<rparr> ?tr1) = ?tr1 @ ys"
       "\<forall>v\<in>set (first # rest). addingLine v \<in> set ys
            \<and> (\<not> IsPaused v \<longrightarrow> applyCall options gf v kc \<in> set ys)"
       "\<forall>e\<in>set ys. own kc e"
      using addLoop_events [of env options gf kc "first # rest" "\<lparr>errs = []\<rparr>" ?tr1] by blast
    have "snd (addResolved env options gf (first # rest) tr) = tr @ EvNewForConfig rc # (?t # ys)"
      using h ys(1) addResolved_connected [of first rc env tr kc options gf rest] by simp
    moreover have "\<forall>e\<in>set (?t # ys). own kc e" using ys(3) by (simp add: own_def tryingLine_def)
    moreover have "\<forall>v\<in>set (first # rest). \<not> IsPaused v \<longrightarrow> applyCall options gf v kc \<in> set (?t # ys)"
      using ys(2) by simp
    ultimately show "\<exists>ys. snd (addResolved env options gf (first # rest) tr) = tr @ EvNewForConfig rc # ys
               \<and> (\<forall>e\<in>set ys. own kc e)
               \<and> (\<forall>v\<in>set (first # rest). \<not> IsPaused v \<longrightarrow> applyCall options gf v kc \<in> set ys)"
      by blast
  qed
  from 1 2 3 show ?thesis unfolding run by (intro conjI)
qed

theorem one_connection_for_the_batch_witness:
  "vc_ClientFactory ex_broken = Inl (ErrorString ''no kube config'')
   \<and> AddVClusterHelm (ex_env [] None [ex_broken, ex_awake]) (ex_options False True) ex_flags [] []
       = (Some (ErrorString ''no kube config''),
          snd (resolveVClusters (ex_env [] None [ex_broken, ex_awake]) (ex_options False True) ex_flags [] []))
   \<and> vc_ClientFactory ex_awake = Inr (RestConfig 0)
   \<and> (\<exists>ys. snd (AddVClusterHelm (ex_env [] None [ex_awake, ex_broken]) (ex_options False True) ex_flags [] [])
              = snd (resolveVClusters (ex_env [] None [ex_awake, ex_broken]) (ex_options False True) ex_flags [] [])
                @ EvNewForConfig (RestConfig 0) # ys
          \<and> list_all (own (Clientset 7)) ys
          \<and> applyCall (ex_options False True) ex_flags ex_broken (Clientset 7) \<in> set ys)"
proof -
  let ?O = "ex_options False True"
  let ?E1 = "ex_env [] None [ex_broken, ex_awake]"
  let ?E2 = "ex_env [] None [ex_awake, ex_broken]"
  let ?t1 = "snd (resolveVClusters ?E1 ?O ex_flags [] [])"
  let ?t2 = "snd (resolveVClusters ?E2 ?O ex_flags [] [])"
  have "fst (resolveVClusters ?E1 ?O ex_flags [] []) = Inr (ex_broken # [ex_awake])"
    by (simp add: resolveVClusters_def Let_def ex_env_def ex_options_def ex_flags_def)
  then have r1: "resolveVClusters ?E1 ?O ex_flags [] [] = (Inr (ex_broken # [ex_awake]), ?t1)"
    by (metis prod.collapse)
  have "fst (resolveVClusters ?E2 ?O ex_flags [] []) = Inr (ex_awake # [ex_broken])"
    by (simp add: resolveVClusters_def Let_def ex_env_def ex_options_def ex_flags_def)
  then have r2: "resolveVClusters ?E2 ?O ex_flags [] [] = (Inr (ex_awake # [ex_broken]), ?t2)"
    by (metis prod.collapse)
  have f1: "vc_ClientFactory ex_broken = Inl (ErrorString ''no kube config'')"
    by (simp add: ex_broken_def)
  have f2: "vc_ClientFactory ex_awake = Inr (RestConfig 0)" by (simp add: ex_awake_def)
  have n2: "env_NewForConfig ?E2 ?t2 (RestConfig 0) = Inr (Clientset 7)" by (simp add: ex_env_def)
  have a2: "\<not> IsPaused ex_broken" by (simp add: IsPaused_def ex_broken_def)
  from one_connection_for_the_batch [OF r1] f1
  have 1: "AddVClusterHelm ?E1 ?O ex_flags [] [] = (Some (ErrorString ''no kube config''), ?t1)"
    by blast
  from one_connection_for_the_batch [OF r2] f2 n2
  obtain ys where "snd (AddVClusterHelm ?E2 ?O ex_flags [] []) = ?t2 @ EvNewForConfig (RestConfig 0) # ys"
     "\<forall>e\<in>set ys. own (Clientset 7) e"
     "\<forall>v\<in>set (ex_awake # [ex_broken]). \<not> IsPaused v \<longrightarrow> applyCall ?O ex_flags v (Clientset 7) \<in> set ys"
    by blast
  with a2 have 2: "\<exists>ys. snd (AddVClusterHelm ?E2 ?O ex_flags [] []) = ?t2 @ EvNewForConfig (RestConfig 0) # ys
          \<and> list_all (own (Clientset 7)) ys
          \<and> applyCall ?O ex_flags ex_broken (Clientset 7) \<in> set ys" by (auto simp: list_all_iff)
  from f1 1 f2 2 show ?thesis by (intro conjI)
qed

text \<open>
  Claim C2, as the code has it. In a batch of two targets that reached the loop, when
  the operation of one returns an error and that of the other returns nil,
  \<^verbatim>\<open>AddVClusterHelm\<close> returns exactly the failing target's error wrapped under
  cannot add vcluster and that target's name, in either order of the two, and an active
  target has its secret applied. In general the loop starts every target of the batch
  in order and applies the secret of every active one, whatever the others returned.
  The failure is one of the target's own operation (prompt, wake-up, apply, restart);
  the only connection resolved is that of the first target, before the loop.
\<close>

theorem failing_target_keeps_siblings:
  assumes "resolveVClusters env options gf name tr0 = (Inr [x, y], tr)"
      and "vc_ClientFactory x = Inr rc" and "env_NewForConfig env tr rc = Inr kc"
      and "addVClusterHelm env options gf (vc_Name x) x kc
             (tr @ [EvNewForConfig rc, tryingLine 2, addingLine x]) = (rx, tr1)"
      and "addVClusterHelm env options gf (vc_Name y) y kc (tr1 @ [addingLine y]) = (ry, tr2)"
  shows "(\<forall>err. rx = Some err \<and> ry = None \<longrightarrow>
            AddVClusterHelm env options gf name tr0 =
              (Some (WrapError (''cannot add vcluster '' @ vc_Name x @ '': '' @ Error err) err), tr2))
       \<and> (\<forall>err. rx = None \<and> ry = Some err \<longrightarrow>
            AddVClusterHelm env options gf name tr0 =
              (Some (WrapError (''cannot add vcluster '' @ vc_Name y @ '': '' @ Error err) err), tr2))
       \<and> (\<forall>v\<in>{x, y}. \<not> IsPaused v \<longrightarrow> applyCall options gf v kc \<in> set tr2)
       \<and> (\<forall>vcs addE t. \<exists>ys. snd (addLoop env options gf kc vcs addE t) = t @ ys
             \<and> (\<forall>v\<in>set vcs. addingLine v \<in> set ys
                    \<and> (\<not> IsPaused v \<longrightarrow> applyCall options gf v kc \<in> set ys)))"
proof -
  let ?tr1 = "tr @ [EvNewForConfig rc, tryingLine 2]"
  have run: "AddVClusterHelm env options gf name tr0 = addResolved env options gf [x, y] tr"
    using assms(1) by (rule AddVClusterHelm_resolved)
  have loop: "addLoop env options gf kc [x, y] \<lparr>errs = []\<rparr> ?tr1
                = (addErr (addErr \<lparr>errs = []\<rparr> (vc_Name x) rx) (vc_Name y) ry, tr2)"
    using addLoop_step [of env options gf x kc ?tr1 rx tr1 "[y]" "\<lparr>errs = []\<rparr>"]
          addLoop_step [of env options gf y kc tr1 ry tr2 "[]" "addErr \<lparr>errs = []\<rparr> (vc_Name x) rx"]
          assms(4,5)
    by simp
  have res: "addResolved env options gf [x, y] tr
               = (CombinedError (addErr (addErr \<lparr>errs = []\<rparr> (vc_Name x) rx) (vc_Name y) ry), tr2)"
  proof -
    have len: "length (x # [y]) = 2" by simp
    show ?thesis
      using addResolved_connected [OF assms(2,3), of options gf "[y]"]
      unfolding len loop by (simp del: addLoop.simps)
  qed
  have 1: "\<forall>err. rx = Some err \<and> ry = None \<longrightarrow>
            addResolved env options gf [x, y] tr =
              (Some (WrapError (''cannot add vcluster '' @ vc_Name x @ '': '' @ Error err) err), tr2)"
    using res by (simp add: addErr_def CombinedError_def fmt_Errorf_def)
  have 2: "\<forall>err. rx = None \<and> ry = Some err \<longrightarrow>
            addResolved env options gf [x, y] tr =
              (Some (WrapError (''cannot add vcluster '' @ vc_Name y @ '': '' @ Error err) err), tr2)"
    using res by (simp add: addErr_def CombinedError_def fmt_Errorf_def)
  have 3: "\<forall>v\<in>{x, y}. \<not> IsPaused v \<longrightarrow> applyCall options gf v kc \<in> set tr2"
  proof -
    obtain ys where "snd (addLoop env options gf kc [x, y] \<lparr>errs = []\<rparr> ?tr1) = ?tr1 @ ys"
       "\<forall>v\<in>set [x, y]. addingLine v \<in> set ys \<and> (\<not> IsPaused v \<longrightarrow> applyCall options gf v kc \<in> set ys)"
      using addLoop_events [of env options gf kc "[x, y]" "\<lparr>errs = []\<rparr>" ?tr1] by blast
    with loop show ?thesis by auto
  qed
  have 4: "\<forall>vcs addE t. \<exists>ys. snd (addLoop env options gf kc vcs addE t) = t @ ys
             \<and> (\<forall>v\<in>set vcs. addingLine v \<in> set ys
                    \<and> (\<not> IsPaused v \<longrightarrow> applyCall options gf v kc \<in> set ys))"
  proof (intro allI)
    fix vcs addE t
    from addLoop_events [of env options gf kc vcs addE t]
    show "\<exists>ys. snd (addLoop env options gf kc vcs addE t) = t @ ys
             \<and> (\<forall>v\<in>set vcs. addingLine v \<in> set ys
                    \<and> (\<not> IsPaused v \<longrightarrow> applyCall options gf v kc \<in> set ys))"
      by blast
  qed
  from 1 2 3 4 show ?thesis unfolding run by (intro conjI)
qed

theorem failing_target_keeps_siblings_witness:
  "fst (AddVClusterHelm (ex_env [] None [ex_forbidden, ex_awake]) (ex_options False True) ex_flags [] [])
     = Some (WrapError ''cannot add vcluster f: forbidden'' (ErrorString ''forbidden''))
   \<and> \<not> IsPaused ex_awake
   \<and> applyCall (ex_options False True) ex_flags ex_awake (Clientset 7)
       \<in> set (snd (AddVClusterHelm (ex_env [] None [ex_forbidden, ex_awake]) (ex_options False True)
                     ex_flags [] []))"
proof -
  let ?O = "ex_options False True"
  let ?E = "ex_env [] None [ex_forbidden, ex_awake]"
  let ?kc = "Clientset 7"
  let ?t = "snd (resolveVClusters ?E ?O ex_flags [] [])"
  let ?rx = "addVClusterHelm ?E ?O ex_flags (vc_Name ex_forbidden) ex_forbidden ?kc
               (?t @ [EvNewForConfig (RestConfig 0), tryingLine 2, addingLine ex_forbidden])"
  let ?ry = "addVClusterHelm ?E ?O ex_flags (vc_Name ex_awake) ex_awake ?kc (snd ?rx @ [addingLine ex_awake])"
  have "fst (resolveVClusters ?E ?O ex_flags [] []) = Inr [ex_forbidden, ex_awake]"
    by (simp add: resolveVClusters_def Let_def ex_env_def ex_options_def ex_flags_def)
  then have r: "resolveVClusters ?E ?O ex_flags [] [] = (Inr [ex_forbidden, ex_awake], ?t)"
    by (metis prod.collapse)
  have f: "vc_ClientFactory ex_forbidden = Inr (RestConfig 0)" by (simp add: ex_forbidden_def)
  have n: "env_NewForConfig ?E ?t (RestConfig 0) = Inr ?kc" by (simp add: ex_env_def)
  have "fst ?rx = Some (ErrorString ''forbidden'')"
    by (simp add: addVClusterHelm_def wakeIfPaused_def applyAndRestart_def IsPaused_def
          ex_env_def ex_options_def ex_flags_def ex_forbidden_def)
  then have x: "?rx = (Some (ErrorString ''forbidden''), snd ?rx)" by (metis prod.collapse)
  have "fst ?ry = None"
    by (simp add: addVClusterHelm_def wakeIfPaused_def applyAndRestart_def IsPaused_def
          ex_env_def ex_options_def ex_flags_def ex_awake_def)
  then have y: "?ry = (None, snd ?ry)" by (metis prod.collapse)
  have a: "\<not> IsPaused ex_awake" by (simp add: IsPaused_def ex_awake_def)
  from failing_target_keeps_siblings [OF r f n x y]
  have "AddVClusterHelm ?E ?O ex_flags [] [] =
          (Some (WrapError (''cannot add vcluster '' @ vc_Name ex_forbidden @ '': ''
                   @ Error (ErrorString ''forbidden'')) (ErrorString ''forbidden'')), snd ?ry)"
    and "\<forall>v\<in>{ex_forbidden, ex_awake}. \<not> IsPaused v \<longrightarrow> applyCall ?O ex_flags v ?kc \<in> set (snd ?ry)"
    by blast+
  with a show ?thesis by (simp add: ex_forbidden_def)
qed

text \<open>
  Claim C2 as stated fails. With the two targets b and a, where the client factory of
  b fails and a is active and healthy: when b is the first target the batch returns the
  bare error of the factory and applies no secret at all; when a is the first target
  the factory of b is never asked and the batch returns no error.
\<close>

theorem failing_connection_aborts_or_is_ignored:
  "vc_ClientFactory ex_broken = Inl (ErrorString ''no kube config'')
   \<and> \<not> IsPaused ex_awake
   \<and> fst (AddVClusterHelm (ex_env [] None [ex_broken, ex_awake]) (ex_options False True) ex_flags [] [])
       = Some (ErrorString ''no kube config'')
   \<and> filter is_apply
        (snd (AddVClusterHelm (ex_env [] None [ex_broken, ex_awake]) (ex_options False True) ex_flags [] []))
       = []
   \<and> fst (AddVClusterHelm (ex_env [] None [ex_awake, ex_broken]) (ex_options False True) ex_flags [] [])
       = None"
  by (simp add: AddVClusterHelm_def addResolved_def resolveVClusters_def Let_def
        addVClusterHelm_def wakeIfPaused_def applyAndRestart_def IsPaused_def
        addErr_def CombinedError_def
        ex_env_def ex_options_def ex_flags_def ex_awake_def ex_broken_def)

lemma run_reaches_collection:
  assumes "b_ClientConfig env = Inr kubeConfig" and "b_NewForConfig env kubeConfig = Inr kubeClient"
      and "b_IsLoftAlreadyInstalled env kubeClient (cmd_Namespace cmd) = Inr installed"
      and "installed \<or> b_Question env (continueQuestion env cmd) = Inr ''Yes''"
  shows "\<exists>pre. run env cmd = (fst (collectAndWrite env cmd kubeConfig), pre @ snd (collectAndWrite env cmd kubeConfig))
           \<and> filter is_warn pre = [] \<and> filter is_write pre = []"
proof (cases installed)
  case True
  let ?pre = "[EvClientConfig [], EvNewForConfig kubeConfig, EvIsLoftAlreadyInstalled kubeClient (cmd_Namespace cmd)]"
  have "run env cmd = (fst (collectAndWrite env cmd kubeConfig), ?pre @ snd (collectAndWrite env cmd kubeConfig))"
    using assms(1-3) True by (simp add: run_def split: prod.splits)
  moreover have "filter is_warn ?pre = [] \<and> filter is_write ?pre = []" by simp
  ultimately show ?thesis by blast
next
  case False
  let ?pre = "[EvClientConfig [], EvNewForConfig kubeConfig, EvIsLoftAlreadyInstalled kubeClient (cmd_Namespace cmd),
               EvQuestion (continueQuestion env cmd)]"
  have "run env cmd = (fst (collectAndWrite env cmd kubeConfig), ?pre @ snd (collectAndWrite env cmd kubeConfig))"
    using assms False by (simp add: run_def split: prod.splits)
  moreover have "filter is_warn ?pre = [] \<and> filter is_write ?pre = []" by simp
  ultimately show ?thesis by blast
qed

lemma collectAndWrite_result:
  assumes "b_New env kubeConfig = Inr client"
      and "b_All env client (cmd_Skip cmd) = (objects, errors, msgs)"
  shows "fst (collectAndWrite env cmd kubeConfig) =
           (case b_ToYAML env objects of
              Inl err \<Rightarrow> Some err
            | Inr backupBytes \<Rightarrow> b_WriteFile env (cmd_Filename cmd) backupBytes mode_0644)"
  using assms by (simp add: collectAndWrite_def Let_def split: sum.splits option.splits)

lemma filter_warn_msgs: "filter is_warn (map (\<lambda>msg. EvLog Info [ArgS msg]) msgs) = []"
  by (induction msgs) simp_all

lemma filter_warn_errors:
  "filter is_warn (map (\<lambda>err. EvLog Warn [ArgE err]) errors) = map (\<lambda>err. EvLog Warn [ArgE err]) errors"
  by (induction errors) simp_all

lemma filter_write_msgs: "filter is_write (map (\<lambda>msg. EvLog l [f msg]) msgs) = []"
  by (induction msgs) simp_all

lemma collectAndWrite_warnings:
  assumes "b_New env kubeConfig = Inr client"
      and "b_All env client (cmd_Skip cmd) = (objects, errors, msgs)"
  shows "filter is_warn (snd (collectAndWrite env cmd kubeConfig)) = map (\<lambda>err. EvLog Warn [ArgE err]) errors"
  using assms
  by (simp add: collectAndWrite_def Let_def filter_warn_msgs filter_warn_errors split: sum.splits option.splits)

lemma collectAndWrite_writes:
  assumes "b_New env kubeConfig = Inr client"
      and "b_All env client (cmd_Skip cmd) = (objects, errors, msgs)"
  shows "filter is_write (snd (collectAndWrite env cmd kubeConfig)) =
           (case b_ToYAML env objects of
              Inl err \<Rightarrow> []
            | Inr backupBytes \<Rightarrow> [EvWriteFile (cmd_Filename cmd) backupBytes mode_0644])"
  using assms
  by (simp add: collectAndWrite_def Let_def filter_write_msgs split: sum.splits option.splits)

text \<open>
  Claim C8. For a run of the backup command that reaches the collection, the warning
  lines of the run are exactly one line per error of the collector, in order. The
  result of the run is the error of the serialisation when that fails, and otherwise
  what the file write returns, unchanged; it is the same for every list of collector
  errors. The run writes at most one file, and only after a successful serialisation:
  all the bytes at once, to the given filename, with the mode 0644.
\<close>

theorem collector_errors_are_warnings:
  assumes "b_ClientConfig env = Inr kubeConfig" and "b_NewForConfig env kubeConfig = Inr kubeClient"
      and "b_IsLoftAlreadyInstalled env kubeClient (cmd_Namespace cmd) = Inr installed"
      and "installed \<or> b_Question env (continueQuestion env cmd) = Inr ''Yes''"
      and "b_New env kubeConfig = Inr client"
      and "b_All env client (cmd_Skip cmd) = (objects, errors, msgs)"
  shows "filter is_warn (snd (run env cmd)) = map (\<lambda>err. EvLog Warn [ArgE err]) errors
       \<and> fst (run env cmd) =
           (case b_ToYAML env objects of
              Inl err \<Rightarrow> Some err
            | Inr backupBytes \<Rightarrow> b_WriteFile env (cmd_Filename cmd) backupBytes mode_0644)
       \<and> filter is_write (snd (run env cmd)) =
           (case b_ToYAML env objects of
              Inl err \<Rightarrow> []
            | Inr backupBytes \<Rightarrow> [EvWriteFile (cmd_Filename cmd) backupBytes mode_0644])
       \<and> mode_0644 = 420
       \<and> (\<forall>errors'. fst (run (env\<lparr>b_All := (\<lambda>_ _. (objects, errors', msgs))\<rparr>) cmd) = fst (run env cmd))"
proof -
  obtain pre where pre:
    "run env cmd = (fst (collectAndWrite env cmd kubeConfig), pre @ snd (collectAndWrite env cmd kubeConfig))"
    "filter is_warn pre = []" "filter is_write pre = []"
    using run_reaches_collection [OF assms(1-4)] by blast
  have 1: "filter is_warn (snd (run env cmd)) = map (\<lambda>err. EvLog Warn [ArgE err]) errors"
    using pre collectAndWrite_warnings [OF assms(5,6)] by simp
  have 2: "fst (run env cmd) =
           (case b_ToYAML env objects of
              Inl err \<Rightarrow> Some err
            | Inr backupBytes \<Rightarrow> b_WriteFile env (cmd_Filename cmd) backupBytes mode_0644)"
    using pre(1) collectAndWrite_result [OF assms(5,6)] by simp
  have 3: "filter is_write (snd (run env cmd)) =
           (case b_ToYAML env objects of
              Inl err \<Rightarrow> []
            | Inr backupBytes \<Rightarrow> [EvWriteFile (cmd_Filename cmd) backupBytes mode_0644])"
    using pre collectAndWrite_writes [OF assms(5,6)] by simp
  have 4: "mode_0644 = 420" by (simp add: mode_0644_def)
  have 5: "\<forall>errors'. fst (run (env\<lparr>b_All := (\<lambda>_ _. (objects, errors', msgs))\<rparr>) cmd) = fst (run env cmd)"
  proof
    fix errors'
    let ?env = "env\<lparr>b_All := (\<lambda>_ _. (objects, errors', msgs))\<rparr>"
    have q: "continueQuestion ?env cmd = continueQuestion env cmd" by (simp add: continueQuestion_def)
    have "\<exists>pre'. run ?env cmd = (fst (collectAndWrite ?env cmd kubeConfig),
                     pre' @ snd (collectAndWrite ?env cmd kubeConfig))
                 \<and> filter is_warn pre' = [] \<and> filter is_write pre' = []"
      by (rule run_reaches_collection [where kubeClient = kubeClient and installed = installed])
         (use assms(1-4) q in simp_all)
    then have "fst (run ?env cmd) = fst (collectAndWrite ?env cmd kubeConfig)" by auto
    also have "\<dots> = (case b_ToYAML ?env objects of
              Inl err \<Rightarrow> Some err
            | Inr backupBytes \<Rightarrow> b_WriteFile ?env (cmd_Filename cmd) backupBytes mode_0644)"
      by (rule collectAndWrite_result [where client = client and errors = errors' and msgs = msgs])
         (use assms(5) in simp_all)
    also have "\<dots> = fst (run env cmd)" using 2 by (simp split: sum.splits)
    finally show "fst (run ?env cmd) = fst (run env cmd)" .
  qed
  from 1 2 3 4 5 show ?thesis by (intro conjI)
qed

theorem collector_errors_are_warnings_witness:
  "filter is_warn (snd (run (ex_benv True [] [ErrorString ''teams: forbidden'', ErrorString ''users: timeout'']) ex_cmd))
     = [EvLog Warn [ArgE (ErrorString ''teams: forbidden'')], EvLog Warn [ArgE (ErrorString ''users: timeout'')]]
   \<and> fst (run (ex_benv True [] [ErrorString ''teams: forbidden'', ErrorString ''users: timeout'']) ex_cmd) = None
   \<and> filter is_write (snd (run (ex_benv True [] [ErrorString ''teams: forbidden'', ErrorString ''users: timeout'']) ex_cmd))
       = [EvWriteFile ''backup.yaml'' [1] 420]"
proof -
  let ?env = "ex_benv True [] [ErrorString ''teams: forbidden'', ErrorString ''users: timeout'']"
  have a: "b_ClientConfig ?env = Inr (RestConfig 1)" "b_NewForConfig ?env (RestConfig 1) = Inr (Clientset 7)"
      "b_IsLoftAlreadyInstalled ?env (Clientset 7) (cmd_Namespace ex_cmd) = Inr True"
      "True \<or> b_Question ?env (continueQuestion ?env ex_cmd) = Inr ''Yes''"
      "b_New ?env (RestConfig 1) = Inr (CtrlClient 3)"
      "b_All ?env (CtrlClient 3) (cmd_Skip ex_cmd)
         = ([Object ''User'' [1]], [ErrorString ''teams: forbidden'', ErrorString ''users: timeout''], [''users''])"
    by (simp_all add: ex_benv_def)
  from collector_errors_are_warnings [OF a]
  show ?thesis by (simp add: ex_benv_def ex_cmd_def)
qed

text \<open>
  Claim C10. When the platform is not found in the namespace and the prompt returns,
  without an error, an answer other than Yes, the run returns nil after the prompt: it
  builds no controller client, collects nothing and writes no file.
\<close>

theorem declined_backup_is_success:
  assumes "b_ClientConfig env = Inr kubeConfig" and "b_NewForConfig env kubeConfig = Inr kubeClient"
      and "b_IsLoftAlreadyInstalled env kubeClient (cmd_Namespace cmd) = Inr False"
      and "b_Question env (continueQuestion env cmd) = Inr answer" and "answer \<noteq> ''Yes''"
  shows "run env cmd =
           (None, [EvClientConfig [], EvNewForConfig kubeConfig,
                   EvIsLoftAlreadyInstalled kubeClient (cmd_Namespace cmd),
                   EvQuestion (continueQuestion env cmd)])
       \<and> filter is_collect (snd (run env cmd)) = []
       \<and> filter is_write (snd (run env cmd)) = []"
  using assms by (simp add: run_def)

theorem declined_backup_is_success_witness:
  "''No'' \<noteq> ''Yes''
   \<and> fst (run (ex_benv False ''No'' []) ex_cmd) = None
   \<and> filter is_collect (snd (run (ex_benv False ''No'' []) ex_cmd)) = []
   \<and> filter is_write (snd (run (ex_benv False ''No'' []) ex_cmd)) = []"
proof -
  let ?env = "ex_benv False ''No'' []"
  have a: "b_ClientConfig ?env = Inr (RestConfig 1)" "b_NewForConfig ?env (RestConfig 1) = Inr (Clientset 7)"
      "b_IsLoftAlreadyInstalled ?env (Clientset 7) (cmd_Namespace ex_cmd) = Inr False"
      "b_Question ?env (continueQuestion ?env ex_cmd) = Inr ''No''" "''No'' \<noteq> ''Yes''"
    by (simp_all add: ex_benv_def)
  from declined_backup_is_success [OF a] show ?thesis by simp
qed

end
